theory Spec2Isabelle
  imports Main "HOL-Library.Word" "HOL-Library.Multiset"
begin

section \<open>The AI News Tracker: article pipeline, classifier and stores\<close>

text \<open>
  A shallow embedding of the news tracker's JavaScript: the classifier
  (\<^verbatim>\<open>filters.js\<close>), the normaliser and pipeline (\<^verbatim>\<open>rss-proxy.js\<close>) and the
  localStorage stores (\<^verbatim>\<open>storage.js\<close>).

  A JavaScript string is a sequence of UTF-16 code units. The model covers the strings
  whose code units are below 256 (Latin-1) and writes them as \<^typ>\<open>string\<close>, one
  \<^typ>\<open>char\<close> per code unit, so that \<^const>\<open>length\<close> is \<^verbatim>\<open>.length\<close>.
\<close>

subsection \<open>String built-ins\<close>

text \<open>
  \<^verbatim>\<open>String.prototype.toLowerCase\<close> works code point by code point on this range:
  A to Z and the upper-case letters U+00C0 to U+00DE (U+00D7, the multiplication sign,
  apart) move up by 32, every other code unit stays.
\<close>

definition toLowerChar :: "char \<Rightarrow> char" where
  "toLowerChar c =
     (let n = (of_char c :: nat)
      in if (65 \<le> n \<and> n \<le> 90) \<or> (192 \<le> n \<and> n \<le> 222 \<and> n \<noteq> 215)
         then char_of (n + 32) else c)"

definition toLowerCase :: "string \<Rightarrow> string" where
  "toLowerCase s = map toLowerChar s"

fun startsWith :: "string \<Rightarrow> string \<Rightarrow> bool" where
  "startsWith s [] = True"
| "startsWith [] (k # ks) = False"
| "startsWith (c # cs) (k # ks) = (c = k \<and> startsWith cs ks)"

text \<open>\<^verbatim>\<open>s.includes(k)\<close>: \<open>k\<close> occurs in \<open>s\<close> as a contiguous substring.\<close>

fun includes_str :: "string \<Rightarrow> string \<Rightarrow> bool" where
  "includes_str [] k = (k = [])"
| "includes_str (c # cs) k = (startsWith (c # cs) k \<or> includes_str cs k)"

subsection \<open>Articles\<close>

record article =
  id' :: string
  title :: string
  description :: string
  link :: string
  pubDate :: string
  source :: string
  category :: string
  isFavorite :: bool

subsection \<open>The classifier (filters.js)\<close>

text \<open>
  \<^verbatim>\<open>CATEGORIES\<close> is an object literal; \<^verbatim>\<open>Object.entries\<close> lists its keys in
  insertion order, so the table is an association list in the order of the source.
  Each entry keeps the keyword list; the display name, which classification never
  reads, is left out.
\<close>

definition ai_design_tools_keywords :: "string list" where
  "ai_design_tools_keywords =
     [''midjourney'', ''dall-e'', ''dall e'', ''dalle'', ''stable diffusion'',
      ''generative ai'', ''ai tool'', ''text to image'', ''image generation'',
      ''ai software'', ''design tool'', ''firefly'', ''leonardo ai'']"

definition visualization_keywords :: "string list" where
  "visualization_keywords =
     [''rendering'', ''visualization'', ''visualisation'', ''vray'', ''v-ray'',
      ''3d render'', ''cgi'', ''3d visualization'', ''lumion'', ''enscape'',
      ''twinmotion'', ''unreal engine'', ''photorealistic'', ''3d model'']"

definition automation_keywords :: "string list" where
  "automation_keywords =
     [''automation'', ''workflow'', ''productivity'', ''ai agent'', ''automate'',
      ''efficiency'', ''process automation'', ''task automation'', ''machine learning'',
      ''artificial intelligence workflow'']"

definition architecture_ai_keywords :: "string list" where
  "architecture_ai_keywords =
     [''architecture'', ''architectural design'', ''building design'', ''bim'',
      ''parametric design'', ''generative design'', ''computational design'',
      ''architect'', ''building'', ''construction'', ''revit ai'', ''grasshopper'']"

definition interior_design_ai_keywords :: "string list" where
  "interior_design_ai_keywords =
     [''interior design'', ''interior'', ''furniture'', ''space planning'',
      ''room design'', ''interior ai'', ''home design'', ''decor'',
      ''interior visualization'']"

definition industry_news_keywords :: "string list" where
  "industry_news_keywords =
     [''industry'', ''market'', ''business'', ''technology'', ''innovation'',
      ''news'', ''announcement'', ''launch'', ''company'', ''startup'']"

definition CATEGORIES :: "(string \<times> string list) list" where
  "CATEGORIES =
     [(''all'', []),
      (''ai-design-tools'', ai_design_tools_keywords),
      (''visualization'', visualization_keywords),
      (''automation'', automation_keywords),
      (''architecture-ai'', architecture_ai_keywords),
      (''interior-design-ai'', interior_design_ai_keywords),
      (''industry-news'', industry_news_keywords),
      (''favorites'', [])]"

definition AI_KEYWORDS :: "string list" where
  "AI_KEYWORDS =
     [''ai'', ''artificial intelligence'', ''machine learning'', ''ml'',
      ''generative'', ''neural'', ''deep learning'', ''algorithm'',
      ''automated'', ''automation'', ''computational'', ''intelligent'',
      ''midjourney'', ''dall-e'', ''dalle'', ''stable diffusion'',
      ''chatgpt'', ''gpt'', ''llm'', ''large language model'']"

text \<open>The template string \<^verbatim>\<open>`${article.title} ${article.description}`.toLowerCase()\<close>.\<close>

definition content :: "article \<Rightarrow> string" where
  "content a = toLowerCase (title a @ '' '' @ description a)"

text \<open>\<^verbatim>\<open>keywords.some(keyword => content.includes(keyword.toLowerCase()))\<close>\<close>

definition hasMatch :: "string \<Rightarrow> string list \<Rightarrow> bool" where
  "hasMatch c kws = list_ex (\<lambda>keyword. includes_str c (toLowerCase keyword)) kws"

definition isAIRelated :: "article \<Rightarrow> bool" where
  "isAIRelated a = hasMatch (content a) AI_KEYWORDS"

text \<open>
  The \<^verbatim>\<open>for ... of Object.entries(CATEGORIES)\<close> loop of \<^verbatim>\<open>categorizeArticle\<close>:
  the identifier of the first entry that is not skipped and has a match, \<open>None\<close> when
  the loop runs to its end.
\<close>

fun categoryLoop :: "string \<Rightarrow> (string \<times> string list) list \<Rightarrow> string option" where
  "categoryLoop c [] = None"
| "categoryLoop c ((categoryId, keywords) # rest) =
     (if categoryId = ''all'' \<or> categoryId = ''favorites'' then categoryLoop c rest
      else if hasMatch c keywords then Some categoryId
      else categoryLoop c rest)"

text \<open>\<open>None\<close> is the \<^verbatim>\<open>null\<close> returned for an article that is not AI-related.\<close>

definition categorizeArticle :: "article \<Rightarrow> article option" where
  "categorizeArticle a =
     (if \<not> isAIRelated a then None
      else case categoryLoop (content a) CATEGORIES of
             Some categoryId \<Rightarrow> Some (a\<lparr>category := categoryId\<rparr>)
           | None \<Rightarrow> Some (a\<lparr>category := ''industry-news''\<rparr>))"

text \<open>
  The classifier as the specification words it: the categories that take part, in table
  order, and the position of the first one with a match.
\<close>

definition realCategories :: "(string \<times> string list) list" where
  "realCategories =
     filter (\<lambda>(categoryId, keywords). categoryId \<noteq> ''all'' \<and> categoryId \<noteq> ''favorites'')
       CATEGORIES"

definition firstMatchAt :: "string \<Rightarrow> nat \<Rightarrow> bool" where
  "firstMatchAt c i =
     (i < length realCategories \<and> hasMatch c (snd (realCategories ! i)) \<and>
      (\<forall>j < i. \<not> hasMatch c (snd (realCategories ! j))))"

subsection \<open>The normaliser (rss-proxy.js)\<close>

text \<open>
  A raw feed item. A field that is missing, \<^verbatim>\<open>undefined\<close> or \<^verbatim>\<open>null\<close> is
  \<open>None\<close>. The fields carry the prefix \<open>raw_\<close> to keep them apart from the fields
  of \<^typ>\<open>article\<close>.
\<close>

record rawArticle =
  raw_title :: "string option"
  raw_description :: "string option"
  raw_content :: "string option"
  raw_link :: "string option"
  raw_guid :: "string option"
  raw_pubDate :: "string option"

text \<open>\<^verbatim>\<open>x || d\<close> on an optional string: a missing field and the empty string are falsy.\<close>

definition orElse :: "string option \<Rightarrow> string \<Rightarrow> string" where
  "orElse x d = (case x of None \<Rightarrow> d | Some s \<Rightarrow> if s = [] then d else s)"

text \<open>
  The loop of \<^verbatim>\<open>generateArticleId\<close>. \<^verbatim>\<open>hash << 5\<close> is a 32-bit shift,
  \<^verbatim>\<open>(hash << 5) - hash + char\<close> is exact in double arithmetic (below \<open>2^34\<close> in
  absolute value) and \<^verbatim>\<open>hash & hash\<close> brings the result back to a signed 32-bit
  integer: one step is the same computation on a 32-bit word, read as signed at the end.
\<close>

fun hashLoop :: "32 word \<Rightarrow> string \<Rightarrow> 32 word" where
  "hashLoop hash [] = hash"
| "hashLoop hash (c # cs) = hashLoop ((push_bit 5 hash - hash) + of_nat (of_char c)) cs"

definition digit36 :: "int \<Rightarrow> char" where
  "digit36 d = (if d < 10 then char_of (48 + d) else char_of (87 + d))"

text \<open>
  \<^verbatim>\<open>Math.abs(hash).toString(36)\<close>: the digits of a non-negative integer in base
  36, most significant first.
\<close>

function toString36 :: "int \<Rightarrow> string" where
  "toString36 n =
     (if n < 36 then [digit36 n] else toString36 (n div 36) @ [digit36 (n mod 36)])"
  by pat_completeness auto
termination
  by (relation "measure nat") auto

declare toString36.simps [simp del]

definition generateArticleId :: "string \<Rightarrow> string" where
  "generateArticleId url = ''article-'' @ toString36 \<bar>sint (hashLoop 0 url)\<bar>"

text \<open>
  \<^verbatim>\<open>html.replace(/<[^>]*>/g, '')\<close>: scanning from the left, a \<open><\<close> that has a
  \<open>>\<close> somewhere after it is removed together with everything up to the first such
  \<open>>\<close>; any other character is kept.
\<close>

function stripTags :: "string \<Rightarrow> string" where
  "stripTags [] = []"
| "stripTags (c # cs) =
     (if c = CHR ''<'' \<and> CHR ''>'' \<in> set cs
      then stripTags (tl (dropWhile (\<lambda>d. d \<noteq> CHR ''>'') cs))
      else c # stripTags cs)"
  by pat_completeness auto
termination
proof (relation "measure length")
  fix c :: char and cs :: string
  have "length (tl (dropWhile (\<lambda>d. d \<noteq> CHR ''>'') cs)) \<le> length cs"
    using length_dropWhile_le [of "\<lambda>d. d \<noteq> CHR ''>''" cs] by simp
  then show "(tl (dropWhile (\<lambda>d. d \<noteq> CHR ''>'') cs), c # cs) \<in> measure length"
    by simp
qed simp_all

text \<open>
  What the browser and the runtime compute is taken as given: the entity decoding of a
  \<^verbatim>\<open>textarea\<close> element, the host name of \<^verbatim>\<open>new URL(url)\<close> (\<open>None\<close> when the
  constructor throws), the time value of \<^verbatim>\<open>new Date(s)\<close> in milliseconds (\<open>None\<close>
  for an invalid date, whose time value is \<^verbatim>\<open>NaN\<close>) and
  \<^verbatim>\<open>Date.prototype.toISOString\<close>.
\<close>

record env =
  decodeEntities :: "string \<Rightarrow> string"
  hostnameOf :: "string \<Rightarrow> string option"
  dateValue :: "string \<Rightarrow> int option"
  toISOString :: "int \<Rightarrow> string"

definition cleanDescription :: "env \<Rightarrow> string \<Rightarrow> string" where
  "cleanDescription e html =
     (let text = stripTags html;
          decoded = decodeEntities e text;
          maxLength = 200
      in if length decoded > maxLength then take maxLength decoded @ ''...''
         else if decoded = [] then ''No description available.'' else decoded)"

text \<open>\<^verbatim>\<open>s.replace(pat, rep)\<close> with a string pattern: the first occurrence only.\<close>

fun replaceFirst :: "string \<Rightarrow> string \<Rightarrow> string \<Rightarrow> string" where
  "replaceFirst pat rep [] = (if pat = [] then rep else [])"
| "replaceFirst pat rep (c # cs) =
     (if startsWith (c # cs) pat then rep @ drop (length pat) (c # cs)
      else c # replaceFirst pat rep cs)"

text \<open>\<^verbatim>\<open>s.split(sep)\<close> with a one-character separator; the result is never empty.\<close>

fun split_on :: "char \<Rightarrow> string \<Rightarrow> string list" where
  "split_on sep [] = [[]]"
| "split_on sep (c # cs) =
     (let ws = split_on sep cs
      in if c = sep then [] # ws else (c # hd ws) # tl ws)"

text \<open>
  \<^verbatim>\<open>word.charAt(0).toUpperCase() + word.slice(1)\<close>. A host name is ASCII (the URL
  parser converts it), so only a to z change.
\<close>

definition toUpperChar :: "char \<Rightarrow> char" where
  "toUpperChar c =
     (let n = (of_char c :: nat) in if 97 \<le> n \<and> n \<le> 122 then char_of (n - 32) else c)"

definition capitalize :: "string \<Rightarrow> string" where
  "capitalize word = (case word of [] \<Rightarrow> [] | c # cs \<Rightarrow> toUpperChar c # cs)"

fun join :: "string \<Rightarrow> string list \<Rightarrow> string" where
  "join sep [] = []"
| "join sep [w] = w"
| "join sep (w # ws) = w @ sep @ join sep ws"

definition extractSource :: "env \<Rightarrow> string \<Rightarrow> string" where
  "extractSource e url =
     (case hostnameOf e url of
        None \<Rightarrow> ''Unknown Source''
      | Some host \<Rightarrow>
          (let hostname = replaceFirst ''www.'' [] host
           in join '' '' (map capitalize (split_on CHR ''-'' (hd (split_on CHR ''.'' hostname))))))"

text \<open>
  \<^verbatim>\<open>normalizeArticle\<close>; \<open>now\<close> is the clock at the call, read only when the raw
  item has no \<^verbatim>\<open>pubDate\<close>.
\<close>

definition normalizeArticle :: "env \<Rightarrow> int \<Rightarrow> rawArticle \<Rightarrow> article" where
  "normalizeArticle e now r =
     \<lparr> id' = generateArticleId (orElse (raw_link r) (orElse (raw_guid r) [])),
       title = orElse (raw_title r) ''Untitled'',
       description =
         cleanDescription e (orElse (raw_description r) (orElse (raw_content r) [])),
       link = orElse (raw_link r) (orElse (raw_guid r) ''#''),
       pubDate = orElse (raw_pubDate r) (toISOString e now),
       source = extractSource e (orElse (raw_link r) []),
       category = ''industry-news'',
       isFavorite = False \<rparr>"

text \<open>
  The identifier as the specification words it: a function of the link, falling back to
  the guid, falling back to the empty string.
\<close>

definition idSource :: "rawArticle \<Rightarrow> string" where
  "idSource r =
     (if raw_link r \<noteq> None \<and> raw_link r \<noteq> Some [] then the (raw_link r)
      else if raw_guid r \<noteq> None \<and> raw_guid r \<noteq> Some [] then the (raw_guid r)
      else [])"

definition rollingHash :: "string \<Rightarrow> 32 word" where
  "rollingHash url = foldl (\<lambda>h c. 31 * h + of_nat (of_char c)) 0 url"

subsection \<open>The stores (storage.js)\<close>

text \<open>
  \<^verbatim>\<open>localStorage\<close> holds the text that \<^verbatim>\<open>JSON.stringify\<close> wrote. Records of
  strings, numbers and booleans come back from \<^verbatim>\<open>JSON.parse\<close> as they went in, so
  an item is modelled by the value it parses to: \<open>Absent\<close> when the key is not set,
  \<open>Json v\<close> for the text of \<open>v\<close>, \<open>Corrupt\<close> for a text that
  \<^verbatim>\<open>JSON.parse\<close> rejects. These are the items the application writes, and the
  unreadable ones its \<^verbatim>\<open>catch\<close> branches are for.
\<close>

datatype 'a item = Absent | Json 'a | Corrupt

text \<open>A favorite record \<^verbatim>\<open>{id, savedAt}\<close>; the field \<^verbatim>\<open>id\<close> is \<open>favId\<close>.\<close>

record favorite =
  favId :: string
  savedAt :: string

record cacheData =
  timestamp :: int
  articles :: "article list"
  expiresAt :: int

record storage =
  favorites_item :: "favorite list item"
  cache_item :: "cacheData item"

text \<open>
  What \<^verbatim>\<open>localStorage.setItem\<close> does is the environment's choice: it stores the
  text, or throws \<^verbatim>\<open>QuotaExceededError\<close>, or throws something else.
  \<^verbatim>\<open>removeItem\<close> does not throw.
\<close>

datatype setItemOutcome = Stored | QuotaExceededError | OtherError

definition CACHE_DURATION :: int where
  "CACHE_DURATION = 3600000"

definition getFavorites :: "storage \<Rightarrow> favorite list" where
  "getFavorites st = (case favorites_item st of Json favorites \<Rightarrow> favorites | _ \<Rightarrow> [])"

text \<open>
  \<^verbatim>\<open>saveFavorite\<close>; \<open>nowIso\<close> is \<^verbatim>\<open>new Date().toISOString()\<close>. The result is
  the returned boolean and the storage afterwards.
\<close>

definition saveFavorite ::
    "setItemOutcome \<Rightarrow> string \<Rightarrow> string \<Rightarrow> storage \<Rightarrow> bool \<times> storage" where
  "saveFavorite outcome nowIso articleId st =
     (let favorites = getFavorites st
      in if find (\<lambda>f. favId f = articleId) favorites = None
         then (case outcome of
                 Stored \<Rightarrow>
                   (True, st\<lparr>favorites_item :=
                      Json (favorites @ [\<lparr>favId = articleId, savedAt = nowIso\<rparr>])\<rparr>)
               | _ \<Rightarrow> (False, st))
         else (False, st))"

definition removeFavorite :: "setItemOutcome \<Rightarrow> string \<Rightarrow> storage \<Rightarrow> bool \<times> storage" where
  "removeFavorite outcome articleId st =
     (let favorites = filter (\<lambda>f. favId f \<noteq> articleId) (getFavorites st)
      in case outcome of
           Stored \<Rightarrow> (True, st\<lparr>favorites_item := Json favorites\<rparr>)
         | _ \<Rightarrow> (False, st))"

definition clearFavorites :: "storage \<Rightarrow> bool \<times> storage" where
  "clearFavorites st = (True, st\<lparr>favorites_item := Absent\<rparr>)"

definition clearCache :: "storage \<Rightarrow> bool \<times> storage" where
  "clearCache st = (True, st\<lparr>cache_item := Absent\<rparr>)"

text \<open>
  \<^verbatim>\<open>cacheArticles\<close> reads the clock twice: \<open>t1\<close> for \<^verbatim>\<open>timestamp\<close>, then
  \<open>t2\<close> for \<^verbatim>\<open>expiresAt\<close>.
\<close>

definition cacheArticles ::
    "setItemOutcome \<Rightarrow> int \<Rightarrow> int \<Rightarrow> article list \<Rightarrow> storage \<Rightarrow> bool \<times> storage" where
  "cacheArticles outcome t1 t2 arts st =
     (case outcome of
        Stored \<Rightarrow>
          (True, st\<lparr>cache_item :=
             Json \<lparr>timestamp = t1, articles = arts, expiresAt = t2 + CACHE_DURATION\<rparr>\<rparr>)
      | QuotaExceededError \<Rightarrow> (False, snd (clearCache st))
      | OtherError \<Rightarrow> (False, st))"

text \<open>\<^verbatim>\<open>getCachedArticles\<close>; \<open>None\<close> is \<^verbatim>\<open>null\<close>, \<open>now\<close> the clock at the call.\<close>

definition getCachedArticles :: "int \<Rightarrow> storage \<Rightarrow> article list option \<times> storage" where
  "getCachedArticles now st =
     (case cache_item st of
        Absent \<Rightarrow> (None, st)
      | Corrupt \<Rightarrow> (None, st)
      | Json cacheData \<Rightarrow>
          if now < expiresAt cacheData then (Some (articles cacheData), st)
          else (None, snd (clearCache st)))"

text \<open>
  The favorites stores that the application can produce: it starts with no item and
  changes it through \<^verbatim>\<open>saveFavorite\<close>, \<^verbatim>\<open>removeFavorite\<close> and
  \<^verbatim>\<open>clearFavorites\<close> only, whatever the storage answers.
\<close>

inductive reachable :: "storage \<Rightarrow> bool" where
  initial: "favorites_item st = Absent \<Longrightarrow> reachable st"
| save: "reachable st \<Longrightarrow> reachable (snd (saveFavorite outcome nowIso articleId st))"
| remove: "reachable st \<Longrightarrow> reachable (snd (removeFavorite outcome articleId st))"
| clear: "reachable st \<Longrightarrow> reachable (snd (clearFavorites st))"
| cache: "reachable st \<Longrightarrow> reachable (st\<lparr>cache_item := c\<rparr>)"

subsection \<open>The pipeline (rss-proxy.js)\<close>

text \<open>\<^verbatim>\<open>Array.prototype.findIndex\<close>; \<open>None\<close> is the result \<open>-1\<close>.\<close>

fun findIndex :: "('a \<Rightarrow> bool) \<Rightarrow> 'a list \<Rightarrow> nat option" where
  "findIndex P [] = None"
| "findIndex P (x # xs) = (if P x then Some 0 else map_option Suc (findIndex P xs))"

text \<open>
  \<^verbatim>\<open>.filter((article, index, self) => index === self.findIndex(a => a.link === article.link))\<close>
\<close>

definition dedupe :: "article list \<Rightarrow> article list" where
  "dedupe self =
     map snd (filter (\<lambda>(index, a). findIndex (\<lambda>b. link b = link a) self = Some index)
                (enumerate 0 self))"

text \<open>
  The comparator \<^verbatim>\<open>(a, b) => new Date(b.pubDate) - new Date(a.pubDate)\<close>; the
  difference is \<^verbatim>\<open>NaN\<close>, here \<open>None\<close>, as soon as one date is invalid.
\<close>

definition dateCompare :: "env \<Rightarrow> article \<Rightarrow> article \<Rightarrow> int option" where
  "dateCompare e a b =
     (case (dateValue e (pubDate b), dateValue e (pubDate a)) of
        (Some tb, Some ta) \<Rightarrow> Some (tb - ta)
      | _ \<Rightarrow> None)"

text \<open>
  \<^verbatim>\<open>Array.prototype.sort\<close> is stable, puts \<open>a\<close> after \<open>b\<close> when the comparator
  is positive on \<open>(a, b)\<close>, and reads \<^verbatim>\<open>NaN\<close> as \<open>0\<close>. Where the comparator is
  consistent on the elements of the list (as it is when all dates are valid, when none is,
  and on any two articles) every stable sort returns the same list; it is computed here
  by insertion: \<open>x\<close> stood before all of \<open>ys\<close> and moves behind those it must come
  after. Where the comparator is not consistent the language leaves the order to the
  implementation, and the result here is one permutation among those allowed.
\<close>

definition comesAfter :: "('a \<Rightarrow> 'a \<Rightarrow> int option) \<Rightarrow> 'a \<Rightarrow> 'a \<Rightarrow> bool" where
  "comesAfter cmp a b = (case cmp a b of None \<Rightarrow> False | Some v \<Rightarrow> v > 0)"

fun insertSorted :: "('a \<Rightarrow> 'a \<Rightarrow> int option) \<Rightarrow> 'a \<Rightarrow> 'a list \<Rightarrow> 'a list" where
  "insertSorted cmp x [] = [x]"
| "insertSorted cmp x (y # ys) =
     (if comesAfter cmp x y then y # insertSorted cmp x ys else x # y # ys)"

definition sortBy :: "('a \<Rightarrow> 'a \<Rightarrow> int option) \<Rightarrow> 'a list \<Rightarrow> 'a list" where
  "sortBy cmp xs = foldr (insertSorted cmp) xs []"

text \<open>\<^verbatim>\<open>.filter(article => article !== null)\<close> on the classifier's results.\<close>

definition dropNulls :: "article option list \<Rightarrow> article list" where
  "dropNulls xs = map the (filter (\<lambda>x. x \<noteq> None) xs)"

text \<open>
  The stages of the processing chain. \<open>itemTime k\<close> is the clock when the \<open>k\<close>-th
  raw item is normalised.
\<close>

definition normalized :: "env \<Rightarrow> (nat \<Rightarrow> int) \<Rightarrow> rawArticle list \<Rightarrow> article list" where
  "normalized e itemTime raws =
     map (\<lambda>(k, r). normalizeArticle e (itemTime k) r) (enumerate 0 raws)"

definition classified :: "env \<Rightarrow> (nat \<Rightarrow> int) \<Rightarrow> rawArticle list \<Rightarrow> article list" where
  "classified e itemTime raws =
     dropNulls (map categorizeArticle (dedupe (normalized e itemTime raws)))"

definition processedArticles :: "env \<Rightarrow> (nat \<Rightarrow> int) \<Rightarrow> rawArticle list \<Rightarrow> article list" where
  "processedArticles e itemTime raws = sortBy (dateCompare e) (classified e itemTime raws)"

text \<open>
  \<^verbatim>\<open>getMockArticles\<close>; \<open>now k\<close> is the value of the \<open>k\<close>-th call of
  \<^verbatim>\<open>Date.now()\<close>. The description of \<open>mock-8\<close> has a dash outside Latin-1 between
  "architects" and "it's", written here as a hyphen.
\<close>

definition getMockArticles :: "env \<Rightarrow> (nat \<Rightarrow> int) \<Rightarrow> article list" where
  "getMockArticles e now =
     [ \<lparr> id' = ''mock-1'',
         title = ''AI-Powered Parametric Design: The Future of Architecture'',
         description =
           ''Explore how artificial intelligence is revolutionizing param'' @
           ''etric design workflows, enabling architects to generate comp'' @
           ''lex, optimized structures in seconds.'',
         link = ''https://www.archdaily.com'',
         pubDate = toISOString e (now 0 - 86400000),
         source = ''ArchDaily'',
         category = ''architecture-ai'',
         isFavorite = False \<rparr>,
       \<lparr> id' = ''mock-2'',
         title = ''Midjourney 7 Released: Game-Changing Features for Architects'',
         description =
           ''The latest version of Midjourney introduces architectural ac'' @
           ''curacy improvements and better control over spatial relation'' @
           ''ships, making it an essential tool for concept visualization'' @
           ''.'',
         link = ''https://www.dezeen.com'',
         pubDate = toISOString e (now 1 - 172800000),
         source = ''Dezeen'',
         category = ''ai-design-tools'',
         isFavorite = False \<rparr>,
       \<lparr> id' = ''mock-3'',
         title = ''Real-Time Rendering with AI: Enscape vs Lumion AI'',
         description =
           ''A comprehensive comparison of AI-enhanced real-time renderin'' @
           ''g tools that are transforming architectural visualization wo'' @
           ''rkflows.'',
         link = ''https://architizer.com'',
         pubDate = toISOString e (now 2 - 259200000),
         source = ''Architizer'',
         category = ''visualization'',
         isFavorite = False \<rparr>,
       \<lparr> id' = ''mock-4'',
         title = ''Automating BIM Workflows: AI Agents for Revit'',
         description =
           ''Learn how custom AI agents are streamlining repetitive tasks'' @
           '' in Revit, saving architectural firms thousands of hours ann'' @
           ''ually.'',
         link = ''https://blog.testfit.io'',
         pubDate = toISOString e (now 3 - 345600000),
         source = ''TestFit'',
         category = ''automation'',
         isFavorite = False \<rparr>,
       \<lparr> id' = ''mock-5'',
         title = ''Interior Design AI: Transform Spaces with Machine Learning'',
         description =
           ''AI-powered interior design tools are enabling designers to g'' @
           ''enerate photorealistic room layouts and furniture arrangemen'' @
           ''ts in minutes.'',
         link = ''https://www.dezeen.com'',
         pubDate = toISOString e (now 4 - 432000000),
         source = ''Dezeen'',
         category = ''interior-design-ai'',
         isFavorite = False \<rparr>,
       \<lparr> id' = ''mock-6'',
         title = ''Stable Diffusion for Architecture: Complete Guide'',
         description =
           ''Master Stable Diffusion for architectural visualization with'' @
           '' this comprehensive guide covering prompts, models, and best'' @
           '' practices.'',
         link = ''https://www.archdaily.com'',
         pubDate = toISOString e (now 5 - 518400000),
         source = ''ArchDaily'',
         category = ''ai-design-tools'',
         isFavorite = False \<rparr>,
       \<lparr> id' = ''mock-7'',
         title = ''AI in Construction: From Design to Built Reality'',
         description =
           ''How artificial intelligence is bridging the gap between arch'' @
           ''itectural design and construction, improving accuracy and re'' @
           ''ducing costs.'',
         link = ''https://architizer.com'',
         pubDate = toISOString e (now 6 - 604800000),
         source = ''Architizer'',
         category = ''industry-news'',
         isFavorite = False \<rparr>,
       \<lparr> id' = ''mock-8'',
         title = ''Generative AI Reshaping Architectural Visualization'',
         description =
           ''Generative AI is not replacing architects-it's empowering th'' @
           ''em to explore more design iterations and create stunning vis'' @
           ''ualizations faster than ever.'',
         link = ''https://www.techtimes.com'',
         pubDate = toISOString e (now 7 - 691200000),
         source = ''Tech Times'',
         category = ''visualization'',
         isFavorite = False \<rparr> ]"

text \<open>
  One call of \<^verbatim>\<open>loadFeeds\<close> meets: the clock when the cache is read, the settled
  results of \<^verbatim>\<open>fetchFeed\<close> for the configured feeds (\<open>None\<close> for a rejected promise
  and for the \<^verbatim>\<open>null\<close> of a feed that failed on both proxies), the clock at each
  normalisation, the clock readings of the sample set, and what the storage answers to the
  cache write and the clock then.
\<close>

record world =
  readTime :: int
  feedResults :: "rawArticle list option list"
  itemTimes :: "nat \<Rightarrow> int"
  mockTimes :: "nat \<Rightarrow> int"
  writeOutcome :: setItemOutcome
  writeTime1 :: int
  writeTime2 :: int

text \<open>The \<^verbatim>\<open>results.forEach\<close> loop: the items of the feeds that delivered, in feed order.\<close>

definition collectArticles :: "rawArticle list option list \<Rightarrow> rawArticle list" where
  "collectArticles results =
     concat (map (\<lambda>result. case result of None \<Rightarrow> [] | Some v \<Rightarrow> v) results)"

text \<open>\<^verbatim>\<open>loadFeeds\<close>: the returned collection and the storage afterwards.\<close>

definition loadFeeds :: "env \<Rightarrow> world \<Rightarrow> storage \<Rightarrow> article list \<times> storage" where
  "loadFeeds e w st =
     (case getCachedArticles (readTime w) st of
        (cachedArticles, st1) \<Rightarrow>
          if cachedArticles \<noteq> None \<and> length (the cachedArticles) > 0
          then (the cachedArticles, st1)
          else
            (let raws = collectArticles (feedResults w)
             in if length raws = 0 then (getMockArticles e (mockTimes w), st1)
                else
                  (let processed = processedArticles e (itemTimes w) raws
                   in (processed,
                       snd (cacheArticles (writeOutcome w) (writeTime1 w) (writeTime2 w)
                              processed st1)))))"

subsection \<open>Notions used in the statements\<close>

text \<open>The index \<open>i\<close> is the first one of the list with its link.\<close>

definition firstWithLink :: "article list \<Rightarrow> nat \<Rightarrow> bool" where
  "firstWithLink xs i = (\<forall>j < i. link (xs ! j) \<noteq> link (xs ! i))"

text \<open>The time value of an article's date, for an article whose date is valid.\<close>

definition timeOf :: "env \<Rightarrow> article \<Rightarrow> int" where
  "timeOf e a = the (dateValue e (pubDate a))"

subsection \<open>Example inputs\<close>

definition exMidjourney :: article where
  "exMidjourney =
     \<lparr> id' = ''article-1'', title = ''MidJourney tips for studios'',
       description = ''Prompts that work.'', link = ''https://example.com/a'',
       pubDate = ''2024-01-01T00:00:00.000Z'', source = ''Example'',
       category = ''industry-news'', isFavorite = False \<rparr>"

definition exTimber :: article where
  "exTimber =
     \<lparr> id' = ''article-2'', title = ''Timber house on a slope'',
       description = ''A home of wood.'', link = ''https://example.com/b'',
       pubDate = ''2024-01-02T00:00:00.000Z'', source = ''Example'',
       category = ''industry-news'', isFavorite = False \<rparr>"

definition exNeural :: article where
  "exNeural =
     \<lparr> id' = ''article-3'', title = ''Neural rendering in practice'',
       description = ''Faster images.'', link = ''https://example.com/c'',
       pubDate = ''2024-01-03T00:00:00.000Z'', source = ''Example'',
       category = ''industry-news'', isFavorite = True \<rparr>"

definition exGenerative :: article where
  "exGenerative =
     \<lparr> id' = ''article-4'', title = ''Generative AI for architecture'',
       description = ''Towers by prompt.'', link = ''https://example.com/d'',
       pubDate = ''2024-01-04T00:00:00.000Z'', source = ''Example'',
       category = ''industry-news'', isFavorite = False \<rparr>"

definition exGpt :: article where
  "exGpt =
     \<lparr> id' = ''article-5'', title = ''GPT notes'',
       description = ''Short.'', link = ''https://example.com/e'',
       pubDate = ''2024-01-05T00:00:00.000Z'', source = ''Example'',
       category = ''automation'', isFavorite = False \<rparr>"

text \<open>
  The environment of the examples. Their texts contain no entity, and decode to
  themselves; the tables hold the host names, time values and ISO texts that the examples
  ask for.
\<close>

definition exEnv :: env where
  "exEnv =
     \<lparr> decodeEntities = (\<lambda>s. s),
       hostnameOf = (\<lambda>url. if startsWith url ''https://www.example-site.com/''
                           then Some ''www.example-site.com'' else None),
       dateValue = (\<lambda>s. if s = ''2024-01-03T00:00:00.000Z'' then Some 1704240000000
                         else if s = ''2024-01-02T00:00:00.000Z'' then Some 1704153600000
                         else if s = ''2024-01-01T00:00:00.000Z'' then Some 1704067200000
                         else None),
       toISOString = (\<lambda>t. if t = 1704326400000 then ''2024-01-04T00:00:00.000Z''
                           else if t = 1704412800000 then ''2024-01-05T00:00:00.000Z''
                           else ''1970-01-01T00:00:00.000Z'') \<rparr>"

definition exNoLinkA :: rawArticle where
  "exNoLinkA =
     \<lparr> raw_title = Some ''AI in the studio'', raw_description = Some ''First post.'',
       raw_content = None, raw_link = Some [], raw_guid = Some ''post-1'',
       raw_pubDate = Some ''2024-01-03T00:00:00.000Z'' \<rparr>"

definition exNoLinkB :: rawArticle where
  "exNoLinkB =
     \<lparr> raw_title = Some ''AI on site'', raw_description = Some ''Second post.'',
       raw_content = None, raw_link = Some [], raw_guid = Some ''post-2'',
       raw_pubDate = Some ''2024-01-02T00:00:00.000Z'' \<rparr>"

definition exLinkA :: rawArticle where
  "exLinkA =
     \<lparr> raw_title = Some ''AI studio'', raw_description = Some ''<b>New</b>'',
       raw_content = None, raw_link = Some ''https://www.example-site.com/a'', raw_guid = Some ''post-1'',
       raw_pubDate = Some ''2024-01-03T00:00:00.000Z'' \<rparr>"

definition exLinkB :: rawArticle where
  "exLinkB =
     \<lparr> raw_title = Some ''Timber house'', raw_description = None,
       raw_content = None, raw_link = Some ''https://www.example-site.com/a'', raw_guid = Some ''post-2'',
       raw_pubDate = None \<rparr>"

definition exPlain :: rawArticle where
  "exPlain =
     \<lparr> raw_title = Some ''Oak hut'', raw_description = Some ''Wood.'',
       raw_content = None, raw_link = Some ''https://www.example-site.com/b'',
       raw_guid = Some ''post-3'', raw_pubDate = Some ''2024-01-02T00:00:00.000Z'' \<rparr>"

definition exJan1 :: rawArticle where
  "exJan1 =
     \<lparr> raw_title = Some ''AI plans'', raw_description = Some ''Survey.'',
       raw_content = None, raw_link = Some ''https://www.example-site.com/c'',
       raw_guid = Some ''post-4'', raw_pubDate = Some ''2024-01-01T00:00:00.000Z'' \<rparr>"

definition exJan2 :: rawArticle where
  "exJan2 =
     \<lparr> raw_title = Some ''GPT facade'', raw_description = Some ''Study.'',
       raw_content = None, raw_link = Some ''https://www.example-site.com/d'',
       raw_guid = Some ''post-5'', raw_pubDate = Some ''2024-01-02T00:00:00.000Z'' \<rparr>"

definition exUndated :: rawArticle where
  "exUndated =
     \<lparr> raw_title = Some ''AI drafts'', raw_description = Some ''Notes.'',
       raw_content = None, raw_link = Some ''https://www.example-site.com/e'',
       raw_guid = Some ''post-6'', raw_pubDate = Some ''not a date'' \<rparr>"

definition exClock :: "nat \<Rightarrow> int" where
  "exClock k = 1704326400000"

definition exStore :: storage where
  "exStore = \<lparr> favorites_item = Absent, cache_item = Absent \<rparr>"

definition exWorldDown :: world where
  "exWorldDown =
     \<lparr> readTime = 1704326400000,
       feedResults = [None, Some [], None, None],
       itemTimes = exClock,
       mockTimes = exClock,
       writeOutcome = Stored,
       writeTime1 = 1704326400000,
       writeTime2 = 1704326400000 \<rparr>"

text \<open>The articles that \<^const>\<open>normalizeArticle\<close> makes of the raw examples.\<close>

definition exArtA :: article where
  "exArtA =
     \<lparr> id' = ''article-uu7mut'', title = ''AI studio'', description = ''New'',
       link = ''https://www.example-site.com/a'', pubDate = ''2024-01-03T00:00:00.000Z'',
       source = ''Example Site'', category = ''industry-news'', isFavorite = False \<rparr>"

definition exArtB :: article where
  "exArtB =
     \<lparr> id' = ''article-uu7mut'', title = ''Timber house'',
       description = ''No description available.'',
       link = ''https://www.example-site.com/a'', pubDate = ''2024-01-04T00:00:00.000Z'',
       source = ''Example Site'', category = ''industry-news'', isFavorite = False \<rparr>"

definition exArtPlain :: article where
  "exArtPlain =
     \<lparr> id' = ''article-uu7muu'', title = ''Oak hut'', description = ''Wood.'',
       link = ''https://www.example-site.com/b'', pubDate = ''2024-01-02T00:00:00.000Z'',
       source = ''Example Site'', category = ''industry-news'', isFavorite = False \<rparr>"

definition exArtJan1 :: article where
  "exArtJan1 =
     \<lparr> id' = ''article-uu7muv'', title = ''AI plans'', description = ''Survey.'',
       link = ''https://www.example-site.com/c'', pubDate = ''2024-01-01T00:00:00.000Z'',
       source = ''Example Site'', category = ''industry-news'', isFavorite = False \<rparr>"

definition exArtJan2 :: article where
  "exArtJan2 =
     \<lparr> id' = ''article-uu7muw'', title = ''GPT facade'', description = ''Study.'',
       link = ''https://www.example-site.com/d'', pubDate = ''2024-01-02T00:00:00.000Z'',
       source = ''Example Site'', category = ''industry-news'', isFavorite = False \<rparr>"

definition exArtUndated :: article where
  "exArtUndated =
     \<lparr> id' = ''article-uu7mux'', title = ''AI drafts'', description = ''Notes.'',
       link = ''https://www.example-site.com/e'', pubDate = ''not a date'',
       source = ''Example Site'', category = ''industry-news'', isFavorite = False \<rparr>"

section \<open>Properties\<close>

subsection \<open>Strings\<close>

lemma startsWith_iff: "startsWith s k \<longleftrightarrow> (\<exists>q. s = k @ q)"
  by (induction s k rule: startsWith.induct) auto

lemma includes_iff: "includes_str s k \<longleftrightarrow> (\<exists>p q. s = p @ k @ q)"
proof (induction s)
  case Nil
  then show ?case by auto
next
  case (Cons c cs)
  show ?case
  proof
    assume "includes_str (c # cs) k"
    then consider "startsWith (c # cs) k" | "includes_str cs k" by auto
    then show "\<exists>p q. c # cs = p @ k @ q"
    proof cases
      case 1
      then obtain q where "c # cs = k @ q" by (auto simp: startsWith_iff)
      then have "c # cs = [] @ k @ q" by simp
      then show ?thesis by blast
    next
      case 2
      then obtain p q where "cs = p @ k @ q" using Cons.IH by blast
      then have "c # cs = (c # p) @ k @ q" by simp
      then show ?thesis by blast
    qed
  next
    assume "\<exists>p q. c # cs = p @ k @ q"
    then obtain p q where pq: "c # cs = p @ k @ q" by blast
    show "includes_str (c # cs) k"
    proof (cases p)
      case Nil
      with pq have "startsWith (c # cs) k" by (auto simp: startsWith_iff)
      then show ?thesis by simp
    next
      case (Cons p0 ps)
      with pq have "cs = ps @ k @ q" by simp
      then have "includes_str cs k" using Cons.IH by blast
      then show ?thesis by simp
    qed
  qed
qed

lemma includes_toLowerCase:
  assumes "includes_str s w"
  shows "includes_str (toLowerCase s) (toLowerCase w)"
proof -
  from assms obtain p q where "s = p @ w @ q" by (auto simp: includes_iff)
  then have "toLowerCase s = toLowerCase p @ toLowerCase w @ toLowerCase q"
    by (simp add: toLowerCase_def)
  then show ?thesis unfolding includes_iff by blast
qed

lemma includes_append_left: "includes_str s k \<Longrightarrow> includes_str (s @ t) k"
  by (auto simp: includes_iff) (metis append.assoc)

lemma includes_append_right: "includes_str t k \<Longrightarrow> includes_str (s @ t) k"
  by (auto simp: includes_iff) (metis append.assoc)

subsection \<open>The classifier\<close>

lemma toLowerCase_keywords:
  "map toLowerCase AI_KEYWORDS = AI_KEYWORDS"
  by code_simp

lemma toLowerCase_midjourney: "toLowerCase ''midjourney'' = ''midjourney''"
  by code_simp

lemma hasMatch_iff: "hasMatch c kws \<longleftrightarrow> (\<exists>k \<in> set kws. includes_str c (toLowerCase k))"
  by (simp add: hasMatch_def list_ex_iff)

lemma content_includes:
  assumes "toLowerCase w = k" and "includes_str (title a) w \<or> includes_str (description a) w"
  shows "includes_str (content a) k"
proof -
  from assms(2) have "includes_str (title a @ '' '' @ description a) w"
    by (auto intro: includes_append_left includes_append_right)
  then show ?thesis
    using assms(1) includes_toLowerCase unfolding content_def by blast
qed

lemma categoryLoop_real:
  "categoryLoop c cats = Some cid \<Longrightarrow>
     cid \<in> fst ` set cats \<and> cid \<noteq> ''all'' \<and> cid \<noteq> ''favorites''"
  by (induction c cats rule: categoryLoop.induct) (auto split: if_splits)

lemma categoryLoop_filter:
  "categoryLoop c cats =
   categoryLoop c (filter (\<lambda>(categoryId, keywords). categoryId \<noteq> ''all'' \<and> categoryId \<noteq> ''favorites'') cats)"
  by (induction c cats rule: categoryLoop.induct) auto

lemma categoryLoop_first:
  assumes "\<forall>p \<in> set cats. fst p \<noteq> ''all'' \<and> fst p \<noteq> ''favorites''"
    and "i < length cats" and "hasMatch c (snd (cats ! i))"
    and "\<forall>j < i. \<not> hasMatch c (snd (cats ! j))"
  shows "categoryLoop c cats = Some (fst (cats ! i))"
  using assms
proof (induction cats arbitrary: i)
  case Nil
  then show ?case by simp
next
  case (Cons p cats)
  obtain cid kws where p: "p = (cid, kws)" by (cases p)
  show ?case
  proof (cases i)
    case 0
    with Cons.prems p show ?thesis by simp
  next
    case (Suc k)
    from Cons.prems(4) Suc have "\<not> hasMatch c (snd ((p # cats) ! 0))" by blast
    then have nomatch: "\<not> hasMatch c kws" using p by simp
    have "\<forall>j < k. \<not> hasMatch c (snd (cats ! j))"
      using Cons.prems(4) Suc by auto
    then have "categoryLoop c cats = Some (fst (cats ! k))"
      using Cons.IH [of k] Cons.prems Suc by simp
    then show ?thesis using p nomatch Suc Cons.prems(1) by simp
  qed
qed

lemma categoryLoop_none:
  assumes "\<forall>i < length cats. \<not> hasMatch c (snd (cats ! i))"
  shows "categoryLoop c cats = None"
  using assms
proof (induction cats)
  case Nil
  then show ?case by simp
next
  case (Cons p cats)
  obtain cid kws where p: "p = (cid, kws)" by (cases p)
  from Cons.prems have "\<not> hasMatch c (snd ((p # cats) ! 0))" by blast
  then have "\<not> hasMatch c kws" using p by simp
  moreover have "\<forall>i < length cats. \<not> hasMatch c (snd (cats ! i))"
    using Cons.prems by auto
  ultimately show ?case using Cons.IH p by simp
qed

lemma realCategories_eq:
  "realCategories =
     [(''ai-design-tools'', ai_design_tools_keywords),
      (''visualization'', visualization_keywords),
      (''automation'', automation_keywords),
      (''architecture-ai'', architecture_ai_keywords),
      (''interior-design-ai'', interior_design_ai_keywords),
      (''industry-news'', industry_news_keywords)]"
  by (simp add: realCategories_def CATEGORIES_def)

lemma realCategories_real:
  "\<forall>p \<in> set realCategories. fst p \<noteq> ''all'' \<and> fst p \<noteq> ''favorites''"
  by (simp add: realCategories_eq)

lemma categoryLoop_CATEGORIES: "categoryLoop c CATEGORIES = categoryLoop c realCategories"
  unfolding realCategories_def by (rule categoryLoop_filter)

text \<open>
  Claim C1. An article whose title or description contains the word "Midjourney" in any
  letter case is not dropped and is put in the category \<open>ai-design-tools\<close>; an article
  whose combined lower-cased title and description contains no keyword of the AI-relevance
  list is dropped: \<^const>\<open>categorizeArticle\<close> returns \<open>None\<close>.
\<close>

theorem categorizeArticle_relevance:
  "((\<exists>w. toLowerCase w = ''midjourney'' \<and>
         (includes_str (title a) w \<or> includes_str (description a) w)) \<longrightarrow>
      categorizeArticle a = Some (a\<lparr>category := ''ai-design-tools''\<rparr>)) \<and>
   ((\<forall>keyword \<in> set AI_KEYWORDS. \<not> includes_str (content a) keyword) \<longrightarrow>
      categorizeArticle a = None)"
proof (intro conjI impI)
  assume "\<exists>w. toLowerCase w = ''midjourney'' \<and>
         (includes_str (title a) w \<or> includes_str (description a) w)"
  then have inc: "includes_str (content a) ''midjourney''"
    using content_includes by blast
  have "''midjourney'' \<in> set AI_KEYWORDS" by (simp add: AI_KEYWORDS_def)
  then have rel: "isAIRelated a"
    unfolding isAIRelated_def hasMatch_iff using inc toLowerCase_midjourney by force
  have "hasMatch (content a) ai_design_tools_keywords"
    unfolding hasMatch_iff ai_design_tools_keywords_def using inc toLowerCase_midjourney by force
  then have "categoryLoop (content a) CATEGORIES = Some ''ai-design-tools''"
    by (simp add: CATEGORIES_def)
  with rel show "categorizeArticle a = Some (a\<lparr>category := ''ai-design-tools''\<rparr>)"
    by (simp add: categorizeArticle_def)
next
  assume none: "\<forall>keyword \<in> set AI_KEYWORDS. \<not> includes_str (content a) keyword"
  have "\<not> isAIRelated a"
  proof
    assume "isAIRelated a"
    then obtain k where k: "k \<in> set AI_KEYWORDS" "includes_str (content a) (toLowerCase k)"
      unfolding isAIRelated_def hasMatch_iff by blast
    have "toLowerCase k \<in> set (map toLowerCase AI_KEYWORDS)" using k(1) by simp
    then have "toLowerCase k \<in> set AI_KEYWORDS" by (simp only: toLowerCase_keywords)
    with none k(2) show False by blast
  qed
  then show "categorizeArticle a = None" by (simp add: categorizeArticle_def)
qed

theorem categorizeArticle_relevance_witness:
  "categorizeArticle exMidjourney = Some (exMidjourney\<lparr>category := ''ai-design-tools''\<rparr>) \<and>
   categorizeArticle exTimber = None"
proof -
  have "toLowerCase ''MidJourney'' = ''midjourney'' \<and>
        (includes_str (title exMidjourney) ''MidJourney'' \<or>
         includes_str (description exMidjourney) ''MidJourney'')"
    by code_simp
  then have h1: "\<exists>w. toLowerCase w = ''midjourney'' \<and>
        (includes_str (title exMidjourney) w \<or> includes_str (description exMidjourney) w)"
    by blast
  have h2: "\<forall>keyword \<in> set AI_KEYWORDS. \<not> includes_str (content exTimber) keyword"
    by code_simp
  show ?thesis
    using categorizeArticle_relevance [of exMidjourney] categorizeArticle_relevance [of exTimber] h1 h2 by blast
qed

text \<open>
  Claim C2. A relevant article gets the first category, in table order and leaving out
  \<open>all\<close> and \<open>favorites\<close>, whose keyword list has a match in the combined lower-cased
  text; an article that matches a keyword of \<open>ai-design-tools\<close> and one of
  \<open>architecture-ai\<close> gets \<open>ai-design-tools\<close>, and a relevant article that matches no
  category gets \<open>industry-news\<close>.
\<close>

theorem categorizeArticle_first_match:
  assumes "isAIRelated a"
  shows "\<exists>b. categorizeArticle a = Some b \<and>
     (\<forall>i. firstMatchAt (content a) i \<longrightarrow> category b = fst (realCategories ! i)) \<and>
     ((\<forall>i < length realCategories. \<not> hasMatch (content a) (snd (realCategories ! i))) \<longrightarrow>
        category b = ''industry-news'') \<and>
     (hasMatch (content a) ai_design_tools_keywords \<and>
      hasMatch (content a) architecture_ai_keywords \<longrightarrow> category b = ''ai-design-tools'')"
proof -
  define cat where "cat = (case categoryLoop (content a) CATEGORIES of
         Some categoryId \<Rightarrow> categoryId | None \<Rightarrow> ''industry-news'')"
  have res: "categorizeArticle a = Some (a\<lparr>category := cat\<rparr>)"
    using assms by (simp add: categorizeArticle_def cat_def split: option.splits)
  have first: "cat = fst (realCategories ! i)" if "firstMatchAt (content a) i" for i
  proof -
    have "categoryLoop (content a) realCategories = Some (fst (realCategories ! i))"
      using that realCategories_real unfolding firstMatchAt_def
      by (intro categoryLoop_first) blast+
    then show ?thesis by (simp add: cat_def categoryLoop_CATEGORIES)
  qed
  have none: "cat = ''industry-news''"
    if "\<forall>i < length realCategories. \<not> hasMatch (content a) (snd (realCategories ! i))"
    using categoryLoop_none [OF that] by (simp add: cat_def categoryLoop_CATEGORIES)
  have both: "cat = ''ai-design-tools''" if "hasMatch (content a) ai_design_tools_keywords"
    using that by (simp add: cat_def CATEGORIES_def)
  show ?thesis
    using res first none both by simp
qed

theorem categorizeArticle_first_match_witness:
  "isAIRelated exGenerative \<and>
   hasMatch (content exGenerative) ai_design_tools_keywords \<and>
   hasMatch (content exGenerative) architecture_ai_keywords \<and>
   map_option category (categorizeArticle exGenerative) = Some ''ai-design-tools'' \<and>
   isAIRelated exGpt \<and>
   map_option category (categorizeArticle exGpt) = Some ''industry-news''"
proof -
  have relA: "isAIRelated exGenerative"
    by code_simp
  have tools: "hasMatch (content exGenerative) ai_design_tools_keywords"
    by code_simp
  have arch: "hasMatch (content exGenerative) architecture_ai_keywords"
    by code_simp
  have firstA: "firstMatchAt (content exGenerative) 0"
    using tools by (simp add: firstMatchAt_def realCategories_eq)
  have relB: "isAIRelated exGpt"
    by code_simp
  have "list_all (\<lambda>p. \<not> hasMatch (content exGpt) (snd p)) realCategories"
    by code_simp
  then have noneB:
    "\<forall>i < length realCategories. \<not> hasMatch (content exGpt) (snd (realCategories ! i))"
    by (simp add: list_all_length)
  have zero: "fst (realCategories ! 0) = ''ai-design-tools''"
    by (simp add: realCategories_eq)
  from categorizeArticle_first_match [OF relA] obtain b where
    b: "categorizeArticle exGenerative = Some b"
       "\<forall>i. firstMatchAt (content exGenerative) i \<longrightarrow> category b = fst (realCategories ! i)"
    by blast
  from b(2) firstA zero have "category b = ''ai-design-tools''"
    by metis
  with b(1) have catA: "map_option category (categorizeArticle exGenerative) = Some ''ai-design-tools''"
    by simp
  from categorizeArticle_first_match [OF relB] obtain b' where
    b': "categorizeArticle exGpt = Some b'"
        "(\<forall>i < length realCategories. \<not> hasMatch (content exGpt) (snd (realCategories ! i))) \<longrightarrow>
           category b' = ''industry-news''"
    by blast
  from b'(2) noneB have "category b' = ''industry-news''"
    by (rule mp)
  with b'(1) have catB: "map_option category (categorizeArticle exGpt) = Some ''industry-news''"
    by simp
  show ?thesis
    using relA tools arch catA relB catB by (intro conjI)
qed

text \<open>
  Claim C10. An article that \<^const>\<open>categorizeArticle\<close> returns is its input with
  only the category replaced, and the category is one of the six real identifiers, never
  \<open>all\<close> and never \<open>favorites\<close>. The model is a pure function: the input is a value
  and cannot be mutated.
\<close>

theorem categorizeArticle_frame:
  assumes "categorizeArticle a = Some b"
  shows "b = a\<lparr>category := category b\<rparr> \<and>
         category b \<in> {''ai-design-tools'', ''visualization'', ''automation'',
                        ''architecture-ai'', ''interior-design-ai'', ''industry-news''}"
proof (cases "categoryLoop (content a) CATEGORIES")
  case None
  with assms have "b = a\<lparr>category := ''industry-news''\<rparr>"
    by (auto simp: categorizeArticle_def split: if_splits)
  then show ?thesis by simp
next
  case (Some cid)
  with assms have b: "b = a\<lparr>category := cid\<rparr>"
    by (auto simp: categorizeArticle_def split: if_splits)
  from Some have "cid \<in> fst ` set realCategories"
    using categoryLoop_real [of "content a" realCategories cid]
    by (simp add: categoryLoop_CATEGORIES)
  then have "cid \<in> {''ai-design-tools'', ''visualization'', ''automation'',
                        ''architecture-ai'', ''interior-design-ai'', ''industry-news''}"
    by (simp add: realCategories_eq)
  with b show ?thesis by simp
qed

theorem categorizeArticle_frame_witness:
  "categorizeArticle exNeural = Some (exNeural\<lparr>category := ''visualization''\<rparr>) \<and>
   exNeural\<lparr>category := ''visualization''\<rparr> =
     exNeural\<lparr>category := category (exNeural\<lparr>category := ''visualization''\<rparr>)\<rparr> \<and>
   category (exNeural\<lparr>category := ''visualization''\<rparr>) \<in>
     {''ai-design-tools'', ''visualization'', ''automation'',
      ''architecture-ai'', ''interior-design-ai'', ''industry-news''}"
proof -
  have h: "categorizeArticle exNeural = Some (exNeural\<lparr>category := ''visualization''\<rparr>)"
    by code_simp
  show ?thesis
    using categorizeArticle_frame [OF h] h by (intro conjI) (erule conjE, assumption)+
qed

subsection \<open>The normaliser\<close>

lemma hashLoop_foldl:
  "hashLoop h url = foldl (\<lambda>h c. 31 * h + of_nat (of_char c)) h url"
  by (induction url arbitrary: h) (simp_all add: push_bit_eq_mult algebra_simps)

lemma generateArticleId_rollingHash:
  "generateArticleId url = ''article-'' @ toString36 \<bar>sint (rollingHash url)\<bar>"
  by (simp add: generateArticleId_def rollingHash_def hashLoop_foldl)

lemma orElse_idSource: "orElse (raw_link r) (orElse (raw_guid r) []) = idSource r"
  by (auto simp: orElse_def idSource_def split: option.splits)

text \<open>
  Claim C3, as the code has it. The identifier is a function of one string alone: the
  link, or the guid when the link is missing or empty, or the empty string; it is
  \<open>article-\<close> followed by the base-36 digits of the absolute value of the 32-bit
  rolling hash \<open>h \<mapsto> 31 h + c\<close> of that string, whatever the other fields, the
  environment and the clock. Two raw items with the same non-empty link get the same
  identifier.
\<close>

theorem normalizeArticle_id:
  "id' (normalizeArticle e now r) =
     ''article-'' @ toString36 \<bar>sint (rollingHash (idSource r))\<bar> \<and>
   (raw_link r1 = Some L \<and> raw_link r2 = Some L \<and> L \<noteq> [] \<longrightarrow>
      id' (normalizeArticle e1 now1 r1) = id' (normalizeArticle e2 now2 r2))"
proof -
  have eq: "id' (normalizeArticle e' now' r') = generateArticleId (idSource r')" for e' now' r'
    by (simp add: normalizeArticle_def orElse_idSource)
  have "idSource r1 = idSource r2"
    if "raw_link r1 = Some L" "raw_link r2 = Some L" "L \<noteq> []"
    using that by (simp add: idSource_def)
  then show ?thesis
    by (simp add: eq generateArticleId_rollingHash)
qed

theorem normalizeArticle_id_witness:
  "raw_link exLinkA = Some ''https://www.example-site.com/a'' \<and>
   raw_link exLinkB = Some ''https://www.example-site.com/a'' \<and>
   ''https://www.example-site.com/a'' \<noteq> [] \<and>
   id' (normalizeArticle exEnv 1704326400000 exLinkA) =
   id' (normalizeArticle exEnv 1704412800000 exLinkB)"
proof -
  have h: "raw_link exLinkA = Some ''https://www.example-site.com/a'' \<and>
   raw_link exLinkB = Some ''https://www.example-site.com/a'' \<and>
   ''https://www.example-site.com/a'' \<noteq> []"
    by (simp add: exLinkA_def exLinkB_def)
  from normalizeArticle_id [of exEnv 0 exLinkA exLinkA "''https://www.example-site.com/a''" exLinkB
      exEnv 1704326400000 exEnv 1704412800000] h
  show ?thesis by blast
qed

text \<open>
  Two raw items with the same link do not always get the same identifier: when the link
  is the empty string the guid is hashed, and the guids may differ.
\<close>

theorem normalizeArticle_id_empty_link:
  "raw_link exNoLinkA = raw_link exNoLinkB \<and>
   id' (normalizeArticle exEnv 1704326400000 exNoLinkA) = ''article-g8xdbw'' \<and>
   id' (normalizeArticle exEnv 1704326400000 exNoLinkB) = ''article-g8xdbv''"
  by code_simp

lemma set_tl_dropWhile: "set (tl (dropWhile P cs)) \<subseteq> set cs"
proof -
  have "set (tl xs) \<subseteq> set xs" for xs :: "'a list"
    by (cases xs) auto
  then have "set (tl (dropWhile P cs)) \<subseteq> set (dropWhile P cs)" .
  also have "\<dots> \<subseteq> set cs"
    by (auto dest: set_dropWhileD)
  finally show ?thesis .
qed

lemma set_stripTags: "set (stripTags s) \<subseteq> set s"
proof (induction s rule: stripTags.induct)
  case 1
  then show ?case by simp
next
  case (2 c cs)
  show ?case
  proof (cases "c = CHR ''<'' \<and> CHR ''>'' \<in> set cs")
    case True
    then have "stripTags (c # cs) = stripTags (tl (dropWhile (\<lambda>d. d \<noteq> CHR ''>'') cs))"
      by simp
    moreover have "set (stripTags (tl (dropWhile (\<lambda>d. d \<noteq> CHR ''>'') cs))) \<subseteq> set cs"
      using "2.IH"(1) [OF True] set_tl_dropWhile [of "\<lambda>d. d \<noteq> CHR ''>''" cs] by blast
    ultimately show ?thesis by auto
  next
    case False
    then have "stripTags (c # cs) = c # stripTags cs" by auto
    with "2.IH"(2) [OF False] show ?thesis by auto
  qed
qed

lemma stripTags_no_tag:
  "stripTags s = p @ CHR ''<'' # q \<Longrightarrow> CHR ''>'' \<notin> set q"
proof (induction s arbitrary: p rule: stripTags.induct)
  case 1
  then show ?case by simp
next
  case (2 c cs)
  show ?case
  proof (cases "c = CHR ''<'' \<and> CHR ''>'' \<in> set cs")
    case True
    with 2 show ?thesis by simp
  next
    case False
    with "2.prems" have eq: "c # stripTags cs = p @ CHR ''<'' # q" by auto
    show ?thesis
    proof (cases p)
      case Nil
      with eq have "c = CHR ''<''" "q = stripTags cs" by auto
      with False set_stripTags [of cs] show ?thesis by auto
    next
      case (Cons p0 ps)
      with eq have "stripTags cs = ps @ CHR ''<'' # q" by simp
      with "2.IH"(2) False show ?thesis by blast
    qed
  qed
qed

text \<open>
  Claim C9. \<^const>\<open>cleanDescription\<close> strips the markup (no \<open><\<close> that is left has
  a \<open>>\<close> after it), decodes the entities, cuts a text of more than 200 characters to
  its first 200 followed by \<open>...\<close>, and returns the placeholder when the decoded text
  is empty; the result has at most 203 characters. \<^const>\<open>normalizeArticle\<close> applies
  it to the raw description, or to the raw content when the description is missing or
  empty.
\<close>

theorem cleanDescription_spec:
  "length (cleanDescription e html) \<le> 203 \<and>
   (length (decodeEntities e (stripTags html)) > 200 \<longrightarrow>
      cleanDescription e html = take 200 (decodeEntities e (stripTags html)) @ ''...'') \<and>
   (decodeEntities e (stripTags html) = [] \<longrightarrow>
      cleanDescription e html = ''No description available.'') \<and>
   (decodeEntities e (stripTags html) \<noteq> [] \<and>
    length (decodeEntities e (stripTags html)) \<le> 200 \<longrightarrow>
      cleanDescription e html = decodeEntities e (stripTags html)) \<and>
   (\<forall>p q. stripTags html = p @ CHR ''<'' # q \<longrightarrow> CHR ''>'' \<notin> set q) \<and>
   description (normalizeArticle e now r) =
     cleanDescription e (orElse (raw_description r) (orElse (raw_content r) []))"
proof -
  have "length (cleanDescription e html) \<le> 203"
    by (simp add: cleanDescription_def Let_def)
  moreover have "\<forall>p q. stripTags html = p @ CHR ''<'' # q \<longrightarrow> CHR ''>'' \<notin> set q"
    using stripTags_no_tag by blast
  moreover have "description (normalizeArticle e now r) =
     cleanDescription e (orElse (raw_description r) (orElse (raw_content r) []))"
    by (simp add: normalizeArticle_def)
  ultimately show ?thesis
    by (simp add: cleanDescription_def Let_def)
qed

theorem cleanDescription_spec_witness:
  "cleanDescription exEnv ''<br/>'' = ''No description available.'' \<and>
   cleanDescription exEnv ''<p>First <b>post</b>.</p>'' = ''First post.'' \<and>
   cleanDescription exEnv (replicate 201 CHR ''a'') = replicate 200 CHR ''a'' @ ''...'' \<and>
   length (cleanDescription exEnv (replicate 201 CHR ''a'')) \<le> 203 \<and>
   stripTags ''2 > 1 <b>x</b> <y'' = ''2 > 1 x '' @ CHR ''<'' # ''y'' \<and>
   CHR ''>'' \<notin> set ''y''"
proof -
  have e1: "decodeEntities exEnv (stripTags ''<br/>'') = []"
    by code_simp
  have e2: "decodeEntities exEnv (stripTags ''<p>First <b>post</b>.</p>'') \<noteq> [] \<and>
            length (decodeEntities exEnv (stripTags ''<p>First <b>post</b>.</p>'')) \<le> 200"
    by code_simp
  have v2: "decodeEntities exEnv (stripTags ''<p>First <b>post</b>.</p>'') = ''First post.''"
    by code_simp
  have e3: "length (decodeEntities exEnv (stripTags (replicate 201 CHR ''a''))) > 200"
    by code_simp
  have v3: "take 200 (decodeEntities exEnv (stripTags (replicate 201 CHR ''a''))) =
            replicate 200 CHR ''a''"
    by code_simp
  have e4: "stripTags ''2 > 1 <b>x</b> <y'' = ''2 > 1 x '' @ CHR ''<'' # ''y''"
    by code_simp
  from cleanDescription_spec [of exEnv "''<br/>''"] e1
  have r1: "cleanDescription exEnv ''<br/>'' = ''No description available.''"
    by blast
  from cleanDescription_spec [of exEnv "''<p>First <b>post</b>.</p>''"] e2
  have "cleanDescription exEnv ''<p>First <b>post</b>.</p>'' =
        decodeEntities exEnv (stripTags ''<p>First <b>post</b>.</p>'')"
    by blast
  with v2 have r2: "cleanDescription exEnv ''<p>First <b>post</b>.</p>'' = ''First post.''"
    by (simp only:)
  from cleanDescription_spec [of exEnv "replicate 201 CHR ''a''"] e3
  have "cleanDescription exEnv (replicate 201 CHR ''a'') =
        take 200 (decodeEntities exEnv (stripTags (replicate 201 CHR ''a''))) @ ''...''"
    and r4: "length (cleanDescription exEnv (replicate 201 CHR ''a'')) \<le> 203"
    by blast+
  with v3 have r3: "cleanDescription exEnv (replicate 201 CHR ''a'') =
        replicate 200 CHR ''a'' @ ''...''"
    by (simp only:)
  from cleanDescription_spec [of exEnv "''2 > 1 <b>x</b> <y''"] e4
  have r5: "CHR ''>'' \<notin> set ''y''"
    by blast
  show ?thesis
    using r1 r2 r3 r4 e4 r5 by (intro conjI)
qed

subsection \<open>The stores\<close>

text \<open>
  Claim C5. When \<^const>\<open>cacheArticles\<close> reports success, the stored entry expires
  3 600 000 ms after the clock reading taken for \<^verbatim>\<open>expiresAt\<close>; a read before that
  time returns the collection that was stored and leaves the storage as it is; a read at
  or after that time returns \<open>None\<close> and removes the entry, so that the next read
  returns \<open>None\<close> as well.
\<close>

theorem cache_round_trip:
  assumes "fst (cacheArticles outcome t1 t2 A st)"
  shows "cache_item (snd (cacheArticles outcome t1 t2 A st)) =
           Json \<lparr>timestamp = t1, articles = A, expiresAt = t2 + 3600000\<rparr> \<and>
         (now < t2 + 3600000 \<longrightarrow>
            getCachedArticles now (snd (cacheArticles outcome t1 t2 A st)) =
              (Some A, snd (cacheArticles outcome t1 t2 A st))) \<and>
         (t2 + 3600000 \<le> now \<longrightarrow>
            fst (getCachedArticles now (snd (cacheArticles outcome t1 t2 A st))) = None \<and>
            cache_item (snd (getCachedArticles now (snd (cacheArticles outcome t1 t2 A st)))) = Absent \<and>
            fst (getCachedArticles later
                   (snd (getCachedArticles now (snd (cacheArticles outcome t1 t2 A st))))) = None)"
proof -
  from assms have "outcome = Stored"
    by (cases outcome) (simp_all add: cacheArticles_def)
  then show ?thesis
    by (simp add: cacheArticles_def getCachedArticles_def clearCache_def CACHE_DURATION_def)
qed

theorem cache_round_trip_witness:
  "fst (cacheArticles Stored 1704326400000 1704326400001 [exMidjourney] exStore) \<and>
   getCachedArticles 1704330000000
     (snd (cacheArticles Stored 1704326400000 1704326400001 [exMidjourney] exStore)) =
     (Some [exMidjourney],
      snd (cacheArticles Stored 1704326400000 1704326400001 [exMidjourney] exStore)) \<and>
   fst (getCachedArticles 1704330000001
     (snd (cacheArticles Stored 1704326400000 1704326400001 [exMidjourney] exStore))) = None \<and>
   cache_item (snd (getCachedArticles 1704330000001
     (snd (cacheArticles Stored 1704326400000 1704326400001 [exMidjourney] exStore)))) = Absent"
proof -
  have h: "fst (cacheArticles Stored 1704326400000 1704326400001 [exMidjourney] exStore)"
    by (simp add: cacheArticles_def)
  have lt: "(1704330000000 :: int) < 1704326400001 + 3600000" by simp
  have ge: "(1704326400001 :: int) + 3600000 \<le> 1704330000001" by simp
  from cache_round_trip [OF h, of 1704330000000] lt
  have r1: "getCachedArticles 1704330000000
     (snd (cacheArticles Stored 1704326400000 1704326400001 [exMidjourney] exStore)) =
     (Some [exMidjourney],
      snd (cacheArticles Stored 1704326400000 1704326400001 [exMidjourney] exStore))"
    by blast
  from cache_round_trip [OF h, of 1704330000001] ge
  have r2: "fst (getCachedArticles 1704330000001
     (snd (cacheArticles Stored 1704326400000 1704326400001 [exMidjourney] exStore))) = None \<and>
   cache_item (snd (getCachedArticles 1704330000001
     (snd (cacheArticles Stored 1704326400000 1704326400001 [exMidjourney] exStore)))) = Absent"
    by blast
  show ?thesis using h r1 r2 by blast
qed

lemma getFavorites_saveFavorite:
  "getFavorites (snd (saveFavorite outcome nowIso x st)) =
     (if find (\<lambda>f. favId f = x) (getFavorites st) = None \<and> outcome = Stored
      then getFavorites st @ [\<lparr>favId = x, savedAt = nowIso\<rparr>] else getFavorites st)"
  by (cases outcome) (simp_all add: saveFavorite_def getFavorites_def Let_def)

lemma getFavorites_removeFavorite:
  "getFavorites (snd (removeFavorite outcome x st)) =
     (if outcome = Stored then filter (\<lambda>f. favId f \<noteq> x) (getFavorites st)
      else getFavorites st)"
  by (cases outcome) (simp_all add: removeFavorite_def getFavorites_def Let_def)

lemma find_None_favId:
  "find (\<lambda>f. favId f = x) fs = None \<longleftrightarrow> x \<notin> favId ` set fs"
  by (auto simp: find_None_iff)

lemma reachable_distinct:
  "reachable st \<Longrightarrow> distinct (map favId (getFavorites st))"
proof (induction rule: reachable.induct)
  case (initial st)
  then show ?case by (simp add: getFavorites_def)
next
  case (save st outcome nowIso articleId)
  then show ?case
    by (simp add: getFavorites_saveFavorite find_None_favId)
next
  case (remove st outcome articleId)
  then show ?case
    by (simp add: getFavorites_removeFavorite distinct_map_filter)
next
  case (clear st)
  then show ?case by (simp add: clearFavorites_def getFavorites_def)
next
  case (cache st c)
  then show ?case by (simp add: getFavorites_def)
qed

lemma distinct_count_one:
  "distinct (map favId fs) \<Longrightarrow> x \<in> favId ` set fs \<Longrightarrow>
     length (filter (\<lambda>f. favId f = x) fs) = 1"
proof (induction fs)
  case Nil
  then show ?case by simp
next
  case (Cons f fs)
  show ?case
  proof (cases "favId f = x")
    case True
    with Cons.prems have "x \<notin> favId ` set fs" by auto
    then have "filter (\<lambda>f. favId f = x) fs = []" by (auto simp: filter_empty_conv)
    with True show ?thesis by simp
  next
    case False
    with Cons show ?thesis by auto
  qed
qed

text \<open>
  Claim C6. The favorites never hold two records with the same identifier. From every
  store that the application can be in, and with a storage that accepts the writes,
  adding \<open>x\<close> twice leaves exactly one record of \<open>x\<close>, the second call changes
  nothing and returns \<open>False\<close>, and removing \<open>x\<close> afterwards leaves no record of
  \<open>x\<close>.
\<close>

theorem favorites_add_remove:
  assumes "reachable st"
  shows "distinct (map favId (getFavorites st)) \<and>
     (let s1 = snd (saveFavorite Stored t1 x st);
          s2 = snd (saveFavorite outcome t2 x s1);
          s3 = snd (removeFavorite Stored x s2)
      in length (filter (\<lambda>f. favId f = x) (getFavorites s2)) = 1 \<and>
         saveFavorite outcome t2 x s1 = (False, s1) \<and>
         filter (\<lambda>f. favId f = x) (getFavorites s3) = [] \<and>
         fst (removeFavorite Stored x s2) \<and>
         distinct (map favId (getFavorites s1)) \<and>
         distinct (map favId (getFavorites s2)) \<and>
         distinct (map favId (getFavorites s3)))"
proof -
  define s1 where "s1 = snd (saveFavorite Stored t1 x st)"
  define s2 where "s2 = snd (saveFavorite outcome t2 x s1)"
  define s3 where "s3 = snd (removeFavorite Stored x s2)"
  have r1: "reachable s1" unfolding s1_def using assms by (rule reachable.save)
  have r2: "reachable s2" unfolding s2_def using r1 by (rule reachable.save)
  have r3: "reachable s3" unfolding s3_def using r2 by (rule reachable.remove)
  have in1: "x \<in> favId ` set (getFavorites s1)"
    by (auto simp: s1_def getFavorites_saveFavorite find_None_favId)
  then have noop: "saveFavorite outcome t2 x s1 = (False, s1)"
    by (simp add: saveFavorite_def Let_def find_None_favId)
  then have "s2 = s1" by (simp add: s2_def)
  with in1 reachable_distinct [OF r1]
  have one: "length (filter (\<lambda>f. favId f = x) (getFavorites s2)) = 1"
    by (simp add: distinct_count_one)
  have gone: "filter (\<lambda>f. favId f = x) (getFavorites s3) = []"
    by (simp add: s3_def getFavorites_removeFavorite)
  have ok: "fst (removeFavorite Stored x s2)"
    by (simp add: removeFavorite_def Let_def)
  show ?thesis
    using reachable_distinct [OF assms] reachable_distinct [OF r1] reachable_distinct [OF r2]
      reachable_distinct [OF r3] one noop gone ok
    by (simp add: Let_def s1_def s2_def s3_def)
qed

theorem favorites_add_remove_witness:
  "reachable exStore \<and>
   getFavorites (snd (saveFavorite Stored ''2024-01-04T00:00:00.000Z'' ''article-g8xdbw'' exStore)) =
     [\<lparr>favId = ''article-g8xdbw'', savedAt = ''2024-01-04T00:00:00.000Z''\<rparr>] \<and>
   saveFavorite Stored ''2024-01-04T00:00:01.000Z'' ''article-g8xdbw''
     (snd (saveFavorite Stored ''2024-01-04T00:00:00.000Z'' ''article-g8xdbw'' exStore)) =
     (False, snd (saveFavorite Stored ''2024-01-04T00:00:00.000Z'' ''article-g8xdbw'' exStore))"
proof -
  have h: "reachable exStore"
    by (rule reachable.initial) (simp add: exStore_def)
  have v: "getFavorites (snd (saveFavorite Stored ''2024-01-04T00:00:00.000Z'' ''article-g8xdbw'' exStore)) =
     [\<lparr>favId = ''article-g8xdbw'', savedAt = ''2024-01-04T00:00:00.000Z''\<rparr>]"
    by (simp add: saveFavorite_def getFavorites_def exStore_def)
  from favorites_add_remove [OF h, of "''2024-01-04T00:00:00.000Z''" "''article-g8xdbw''" Stored
      "''2024-01-04T00:00:01.000Z''"]
  have "saveFavorite Stored ''2024-01-04T00:00:01.000Z'' ''article-g8xdbw''
     (snd (saveFavorite Stored ''2024-01-04T00:00:00.000Z'' ''article-g8xdbw'' exStore)) =
     (False, snd (saveFavorite Stored ''2024-01-04T00:00:00.000Z'' ''article-g8xdbw'' exStore))"
    by (simp only: Let_def)
  with h v show ?thesis by blast
qed

lemma collectArticles_empty:
  assumes "\<forall>result \<in> set results. result = None \<or> result = Some []"
  shows "collectArticles results = []"
  using assms by (auto simp: collectArticles_def split: option.splits)

lemma length_getMockArticles: "length (getMockArticles e now) = 8"
  by (simp add: getMockArticles_def)

text \<open>
  Claim C8. When the cache gives nothing (no entry, an expired or unreadable one, or an
  empty collection) and every feed delivers no item, \<^const>\<open>loadFeeds\<close> returns the
  eight sample articles of \<^const>\<open>getMockArticles\<close>. On a cache hit no feed is asked.
  The model is a total function: nothing is thrown.
\<close>

theorem loadFeeds_fallback:
  assumes "fst (getCachedArticles (readTime w) st) = None \<or>
           fst (getCachedArticles (readTime w) st) = Some []"
    and "\<forall>result \<in> set (feedResults w). result = None \<or> result = Some []"
  shows "fst (loadFeeds e w st) = getMockArticles e (mockTimes w) \<and>
         length (fst (loadFeeds e w st)) = 8 \<and>
         map id' (fst (loadFeeds e w st)) =
           [''mock-1'', ''mock-2'', ''mock-3'', ''mock-4'', ''mock-5'', ''mock-6'', ''mock-7'',
            ''mock-8'']"
proof -
  have "collectArticles (feedResults w) = []"
    using assms(2) by (rule collectArticles_empty)
  with assms(1) have "fst (loadFeeds e w st) = getMockArticles e (mockTimes w)"
    by (auto simp: loadFeeds_def split: prod.splits)
  moreover have "map id' (getMockArticles e (mockTimes w)) =
           [''mock-1'', ''mock-2'', ''mock-3'', ''mock-4'', ''mock-5'', ''mock-6'', ''mock-7'',
            ''mock-8'']"
    by (simp add: getMockArticles_def)
  ultimately show ?thesis by (simp add: length_getMockArticles)
qed

theorem loadFeeds_fallback_witness:
  "fst (getCachedArticles (readTime exWorldDown) exStore) = None \<and>
   list_all (\<lambda>result. result = None \<or> result = Some []) (feedResults exWorldDown) \<and>
   fst (loadFeeds exEnv exWorldDown exStore) = getMockArticles exEnv (mockTimes exWorldDown) \<and>
   length (fst (loadFeeds exEnv exWorldDown exStore)) = 8"
proof -
  have h1: "fst (getCachedArticles (readTime exWorldDown) exStore) = None"
    by (simp add: getCachedArticles_def exStore_def)
  have h2: "list_all (\<lambda>result. result = None \<or> result = Some []) (feedResults exWorldDown)"
    by (simp add: exWorldDown_def)
  then have h2': "\<forall>result \<in> set (feedResults exWorldDown). result = None \<or> result = Some []"
    by (simp add: list_all_iff)
  from loadFeeds_fallback [OF disjI1 [OF h1] h2', of exEnv] h1 h2
  show ?thesis by blast
qed

subsection \<open>The pipeline\<close>

text \<open>
  On a cache miss with at least one raw item, \<^const>\<open>loadFeeds\<close> returns the
  processed articles.
\<close>

lemma loadFeeds_processed:
  assumes "fst (getCachedArticles (readTime w) st) = None \<or>
           fst (getCachedArticles (readTime w) st) = Some []"
    and "collectArticles (feedResults w) \<noteq> []"
  shows "fst (loadFeeds e w st) =
           processedArticles e (itemTimes w) (collectArticles (feedResults w))"
  using assms by (auto simp: loadFeeds_def Let_def split: prod.splits)

lemma findIndex_Some_iff:
  "findIndex P xs = Some i \<longleftrightarrow> i < length xs \<and> P (xs ! i) \<and> (\<forall>j < i. \<not> P (xs ! j))"
proof (induction xs arbitrary: i)
  case Nil
  then show ?case by simp
next
  case (Cons x xs)
  show ?case
  proof (cases "P x")
    case True
    then show ?thesis by (cases i) auto
  next
    case False
    show ?thesis
    proof (cases i)
      case 0
      with False show ?thesis by auto
    next
      case (Suc k)
      have "(\<forall>j < Suc k. \<not> P ((x # xs) ! j)) \<longleftrightarrow> (\<forall>j < k. \<not> P (xs ! j))"
        using False by (auto simp: less_Suc_eq_0_disj)
      with False Suc Cons.IH [of k] show ?thesis by auto
    qed
  qed
qed

lemma enumerate_nth: "enumerate 0 xs = map (\<lambda>i. (i, xs ! i)) [0..<length xs]"
proof (rule nth_equalityI)
  show "length (enumerate 0 xs) = length (map (\<lambda>i. (i, xs ! i)) [0..<length xs])"
    by simp
next
  fix i
  assume "i < length (enumerate 0 xs)"
  then show "enumerate 0 xs ! i = map (\<lambda>i. (i, xs ! i)) [0..<length xs] ! i"
    by (simp add: nth_enumerate_eq)
qed

lemma dedupe_indices:
  "dedupe xs = map (\<lambda>i. xs ! i) (filter (firstWithLink xs) [0..<length xs])"
proof -
  have "filter (\<lambda>i. findIndex (\<lambda>b. link b = link (xs ! i)) xs = Some i) [0..<length xs] =
        filter (firstWithLink xs) [0..<length xs]"
    by (rule filter_cong) (auto simp: findIndex_Some_iff firstWithLink_def)
  then show ?thesis
    by (simp add: dedupe_def enumerate_nth filter_map comp_def)
qed

lemma distinct_link_dedupe: "distinct (map link (dedupe xs))"
proof -
  have "inj_on (\<lambda>i. link (xs ! i)) (set (filter (firstWithLink xs) [0..<length xs]))"
  proof (rule inj_onI)
    fix i j
    assume i: "i \<in> set (filter (firstWithLink xs) [0..<length xs])"
      and j: "j \<in> set (filter (firstWithLink xs) [0..<length xs])"
      and eq: "link (xs ! i) = link (xs ! j)"
    show "i = j"
    proof (rule ccontr)
      assume "i \<noteq> j"
      then consider "i < j" | "j < i" by linarith
      then show False
      proof cases
        case 1
        with j eq show False by (auto simp: firstWithLink_def)
      next
        case 2
        with i eq show False by (auto simp: firstWithLink_def)
      qed
    qed
  qed
  then show ?thesis
    by (simp add: dedupe_indices distinct_map comp_def)
qed

lemma set_dedupe_subset: "set (dedupe xs) \<subseteq> set xs"
  by (auto simp: dedupe_indices)

lemma first_index_exists:
  assumes "k < length xs"
  shows "\<exists>i. i < length xs \<and> link (xs ! i) = link (xs ! k) \<and> firstWithLink xs i"
proof -
  define Q where "Q n \<longleftrightarrow> n < length xs \<and> link (xs ! n) = link (xs ! k)" for n
  define i where "i = (LEAST n. Q n)"
  have "Q k" using assms by (simp add: Q_def)
  then have Qi: "Q i" unfolding i_def by (rule LeastI)
  have least: "\<not> Q j" if "j < i" for j
    using that unfolding i_def by (rule not_less_Least)
  have "firstWithLink xs i"
    unfolding firstWithLink_def
  proof (intro allI impI)
    fix j
    assume "j < i"
    then have "\<not> Q j" by (rule least)
    moreover have "j < length xs" using \<open>j < i\<close> Qi by (simp add: Q_def)
    ultimately show "link (xs ! j) \<noteq> link (xs ! i)" using Qi by (simp add: Q_def)
  qed
  with Qi show ?thesis unfolding Q_def by blast
qed

lemma link_set_dedupe: "link ` set (dedupe xs) = link ` set xs"
proof (rule equalityI)
  show "link ` set (dedupe xs) \<subseteq> link ` set xs"
    by (rule image_mono) (rule set_dedupe_subset)
next
  show "link ` set xs \<subseteq> link ` set (dedupe xs)"
  proof (rule subsetI)
    fix l
    assume "l \<in> link ` set xs"
    then obtain a where "a \<in> set xs" "l = link a" by (rule imageE)
    then obtain k where k: "k < length xs" "l = link (xs ! k)"
      by (metis in_set_conv_nth)
    from first_index_exists [OF k(1)] obtain i where
      i: "i < length xs" "link (xs ! i) = link (xs ! k)" "firstWithLink xs i"
      by blast
    then have "xs ! i \<in> set (dedupe xs)"
      by (simp add: dedupe_indices)
    then have "link (xs ! i) \<in> link ` set (dedupe xs)" by (rule imageI)
    with i(2) k(2) show "l \<in> link ` set (dedupe xs)" by simp
  qed
qed

lemma length_dedupe: "length (dedupe xs) = card (link ` set xs)"
proof -
  have "length (dedupe xs) = length (map link (dedupe xs))" by simp
  also have "\<dots> = card (set (map link (dedupe xs)))"
    using distinct_link_dedupe by (simp only: distinct_card)
  also have "\<dots> = card (link ` set xs)"
    by (simp add: link_set_dedupe)
  finally show ?thesis .
qed

lemma dedupe_first:
  assumes "a \<in> set (dedupe xs)"
  shows "find (\<lambda>b. link b = link a) xs = Some a"
proof -
  from assms obtain i where i: "i < length xs" "firstWithLink xs i" "a = xs ! i"
    by (auto simp: dedupe_indices)
  then show ?thesis
    unfolding find_Some_iff firstWithLink_def by (intro exI [of _ i]) auto
qed

lemma categorizeArticle_link: "categorizeArticle a = Some b \<Longrightarrow> link b = link a"
  by (auto simp: categorizeArticle_def split: if_splits option.splits)

lemma set_dropNulls: "set (dropNulls xs) = {b. Some b \<in> set xs}"
  by (induction xs) (auto simp: dropNulls_def)

lemma map_link_dropNulls:
  "map link (dropNulls (map categorizeArticle xs)) =
   map link (filter (\<lambda>a. categorizeArticle a \<noteq> None) xs)"
  by (induction xs) (auto simp: dropNulls_def categorizeArticle_link)

lemma mset_insertSorted: "mset (insertSorted cmp x ys) = add_mset x (mset ys)"
  by (induction ys) auto

lemma mset_sortBy: "mset (sortBy cmp xs) = mset xs"
  by (induction xs) (simp_all add: sortBy_def mset_insertSorted)

lemma set_sortBy: "set (sortBy cmp xs) = set xs"
  using mset_sortBy [of cmp xs] by (metis set_mset_mset)

lemma length_sortBy: "length (sortBy cmp xs) = length xs"
  using mset_sortBy [of cmp xs] by (metis size_mset)

lemma distinct_link_sortBy:
  "distinct (map link (sortBy cmp xs)) = distinct (map link xs)"
proof -
  have "mset (map link (sortBy cmp xs)) = mset (map link xs)"
    by (simp only: mset_map mset_sortBy)
  then show ?thesis by (rule mset_eq_imp_distinct_iff)
qed

lemma insertSorted_insort_key:
  fixes k :: "'a \<Rightarrow> int"
  assumes "\<forall>y \<in> set ys. comesAfter cmp x y \<longleftrightarrow> k x < k y"
  shows "insertSorted cmp x ys = insort_key (\<lambda>a. - k a) x ys"
  using assms by (induction ys) auto

lemma sortBy_sort_key:
  fixes k :: "'a \<Rightarrow> int"
  assumes "\<forall>a \<in> set xs. \<forall>b \<in> set xs. comesAfter cmp a b \<longleftrightarrow> k a < k b"
  shows "sortBy cmp xs = sort_key (\<lambda>a. - k a) xs"
  using assms
proof (induction xs)
  case Nil
  then show ?case by (simp add: sortBy_def)
next
  case (Cons x xs)
  then have IH: "sortBy cmp xs = sort_key (\<lambda>a. - k a) xs" by simp
  have "\<forall>y \<in> set (sort_key (\<lambda>a. - k a) xs). comesAfter cmp x y \<longleftrightarrow> k x < k y"
    using Cons.prems by simp
  then have "insertSorted cmp x (sort_key (\<lambda>a. - k a) xs) =
             insort_key (\<lambda>a. - k a) x (sort_key (\<lambda>a. - k a) xs)"
    by (rule insertSorted_insort_key)
  then show ?case using IH by (simp add: sortBy_def)
qed

lemma comesAfter_dateCompare:
  assumes "dateValue e (pubDate a) \<noteq> None" and "dateValue e (pubDate b) \<noteq> None"
  shows "comesAfter (dateCompare e) a b \<longleftrightarrow> timeOf e a < timeOf e b"
  using assms by (auto simp: comesAfter_def dateCompare_def timeOf_def)

text \<open>The stages of the pipeline on the examples.\<close>

lemma norm_A: "normalizeArticle exEnv 1704326400000 exLinkA = exArtA"
  by code_simp
lemma norm_B: "normalizeArticle exEnv 1704326400000 exLinkB = exArtB"
  by code_simp
lemma norm_Plain: "normalizeArticle exEnv 1704326400000 exPlain = exArtPlain"
  by code_simp
lemma norm_Jan1: "normalizeArticle exEnv 1704326400000 exJan1 = exArtJan1"
  by code_simp
lemma norm_Jan2: "normalizeArticle exEnv 1704326400000 exJan2 = exArtJan2"
  by code_simp
lemma norm_Undated: "normalizeArticle exEnv 1704326400000 exUndated = exArtUndated"
  by code_simp

lemma content_A: "content exArtA = ''ai studio new''"
  by code_simp
lemma content_Plain: "content exArtPlain = ''oak hut wood.''"
  by code_simp
lemma content_Jan1: "content exArtJan1 = ''ai plans survey.''"
  by code_simp
lemma content_Jan2: "content exArtJan2 = ''gpt facade study.''"
  by code_simp
lemma content_Undated: "content exArtUndated = ''ai drafts notes.''"
  by code_simp

lemma categorizeArticle_fallback:
  assumes "content a = c" and "hasMatch c AI_KEYWORDS" and "categoryLoop c CATEGORIES = None"
    and "category a = ''industry-news''"
  shows "categorizeArticle a = Some a"
  using assms by (simp add: categorizeArticle_def isAIRelated_def)

lemma categorizeArticle_dropped:
  assumes "content a = c" and "\<not> hasMatch c AI_KEYWORDS"
  shows "categorizeArticle a = None"
  using assms by (simp add: categorizeArticle_def isAIRelated_def)

lemma cat_A: "categorizeArticle exArtA = Some exArtA"
proof (rule categorizeArticle_fallback [OF content_A])
  show "hasMatch ''ai studio new'' AI_KEYWORDS" by code_simp
  show "categoryLoop ''ai studio new'' CATEGORIES = None" by code_simp
  show "category exArtA = ''industry-news''" by (simp add: exArtA_def)
qed

lemma cat_Jan1: "categorizeArticle exArtJan1 = Some exArtJan1"
proof (rule categorizeArticle_fallback [OF content_Jan1])
  show "hasMatch ''ai plans survey.'' AI_KEYWORDS" by code_simp
  show "categoryLoop ''ai plans survey.'' CATEGORIES = None" by code_simp
  show "category exArtJan1 = ''industry-news''" by (simp add: exArtJan1_def)
qed

lemma cat_Jan2: "categorizeArticle exArtJan2 = Some exArtJan2"
proof (rule categorizeArticle_fallback [OF content_Jan2])
  show "hasMatch ''gpt facade study.'' AI_KEYWORDS" by code_simp
  show "categoryLoop ''gpt facade study.'' CATEGORIES = None" by code_simp
  show "category exArtJan2 = ''industry-news''" by (simp add: exArtJan2_def)
qed

lemma cat_Undated: "categorizeArticle exArtUndated = Some exArtUndated"
proof (rule categorizeArticle_fallback [OF content_Undated])
  show "hasMatch ''ai drafts notes.'' AI_KEYWORDS" by code_simp
  show "categoryLoop ''ai drafts notes.'' CATEGORIES = None" by code_simp
  show "category exArtUndated = ''industry-news''" by (simp add: exArtUndated_def)
qed

lemma cat_Plain: "categorizeArticle exArtPlain = None"
proof (rule categorizeArticle_dropped [OF content_Plain])
  show "\<not> hasMatch ''oak hut wood.'' AI_KEYWORDS" by code_simp
qed

lemma example_links:
  "link exArtA = ''https://www.example-site.com/a''"
  "link exArtB = ''https://www.example-site.com/a''"
  "link exArtPlain = ''https://www.example-site.com/b''"
  "link exArtJan1 = ''https://www.example-site.com/c''"
  "link exArtJan2 = ''https://www.example-site.com/d''"
  "link exArtUndated = ''https://www.example-site.com/e''"
  by (simp_all add: exArtA_def exArtB_def exArtPlain_def exArtJan1_def exArtJan2_def
      exArtUndated_def)

lemma example_dates:
  "dateValue exEnv (pubDate exArtA) = Some 1704240000000"
  "dateValue exEnv (pubDate exArtJan1) = Some 1704067200000"
  "dateValue exEnv (pubDate exArtJan2) = Some 1704153600000"
  "dateValue exEnv (pubDate exArtUndated) = None"
  by (simp_all add: exArtA_def exArtJan1_def exArtJan2_def exArtUndated_def exEnv_def)

lemma normalized_eval3:
  "normalized e t [r0, r1, r2] =
     [normalizeArticle e (t 0) r0, normalizeArticle e (t 1) r1, normalizeArticle e (t 2) r2]"
  by (simp add: normalized_def numeral_2_eq_2)

lemma normalized_eval2:
  "normalized e t [r0, r1] = [normalizeArticle e (t 0) r0, normalizeArticle e (t 1) r1]"
  by (simp add: normalized_def)

lemma normalized_eval1: "normalized e t [r0] = [normalizeArticle e (t 0) r0]"
  by (simp add: normalized_def)

lemma ded1: "dedupe [exArtPlain] = [exArtPlain]"
  by (simp add: dedupe_def)

lemma ded3: "dedupe [exArtA, exArtB, exArtPlain] = [exArtA, exArtPlain]"
  by (simp add: dedupe_def example_links)

lemma ded2: "dedupe [exArtUndated, exArtA] = [exArtUndated, exArtA]"
  by (simp add: dedupe_def example_links)

lemma ded3': "dedupe [exArtA, exArtJan1, exArtJan2] = [exArtA, exArtJan1, exArtJan2]"
  by (simp add: dedupe_def example_links)

lemma proc1: "processedArticles exEnv exClock [exPlain] = []"
  by (simp add: processedArticles_def classified_def exClock_def normalized_eval1 norm_Plain ded1
      cat_Plain dropNulls_def sortBy_def)

lemma class3: "classified exEnv exClock [exLinkA, exLinkB, exPlain] = [exArtA]"
  by (simp add: classified_def exClock_def normalized_eval3 norm_A norm_B norm_Plain ded3 cat_A
      cat_Plain dropNulls_def)

lemma class2: "classified exEnv exClock [exUndated, exLinkA] = [exArtUndated, exArtA]"
  by (simp add: classified_def exClock_def normalized_eval2 norm_Undated norm_A ded2 cat_A
      cat_Undated dropNulls_def)

lemma class3': "classified exEnv exClock [exLinkA, exJan1, exJan2] = [exArtA, exArtJan1, exArtJan2]"
  by (simp add: classified_def exClock_def normalized_eval3 norm_A norm_Jan1 norm_Jan2 ded3' cat_A
      cat_Jan1 cat_Jan2 dropNulls_def)

lemma proc2: "processedArticles exEnv exClock [exUndated, exLinkA] = [exArtUndated, exArtA]"
  by (simp add: processedArticles_def class2 sortBy_def comesAfter_def dateCompare_def example_dates)

lemma proc3': "processedArticles exEnv exClock [exLinkA, exJan1, exJan2] =
    [exArtA, exArtJan2, exArtJan1]"
  by (simp add: processedArticles_def class3' sortBy_def comesAfter_def dateCompare_def example_dates)

lemma proc3: "processedArticles exEnv exClock [exLinkA, exLinkB, exPlain] = [exArtA]"
  by (simp add: processedArticles_def class3 sortBy_def)


lemma norm3: "normalized exEnv exClock [exLinkA, exLinkB, exPlain] = [exArtA, exArtB, exArtPlain]"
  by (simp add: exClock_def normalized_eval3 norm_A norm_B norm_Plain)

text \<open>
  Claim C4, as the code has it. Deduplication works on the links of the normalised items
  (the raw link, or the guid, or \<open>#\<close>). It keeps the items at the first index of each
  link, in their order: as many entries as there are distinct links, each the first item
  of the list with its link. The processed output holds the classified copies of those
  among them that pass the relevance gate, and no other article; its links are pairwise
  distinct and it has at most as many entries as there are distinct links.
\<close>

theorem dedupe_first_occurrence:
  "dedupe (normalized e itemTime raws) =
     map (\<lambda>i. normalized e itemTime raws ! i)
       (filter (firstWithLink (normalized e itemTime raws))
          [0..<length (normalized e itemTime raws)]) \<and>
   length (dedupe (normalized e itemTime raws)) =
     card (link ` set (normalized e itemTime raws)) \<and>
   distinct (map link (dedupe (normalized e itemTime raws))) \<and>
   (\<forall>a \<in> set (dedupe (normalized e itemTime raws)).
      find (\<lambda>b. link b = link a) (normalized e itemTime raws) = Some a) \<and>
   set (processedArticles e itemTime raws) =
     {b. \<exists>a \<in> set (dedupe (normalized e itemTime raws)). categorizeArticle a = Some b} \<and>
   distinct (map link (processedArticles e itemTime raws)) \<and>
   length (processedArticles e itemTime raws) \<le> card (link ` set (normalized e itemTime raws))"
proof -
  let ?ns = "normalized e itemTime raws"
  let ?ds = "dedupe ?ns"
  have set_eq: "set (processedArticles e itemTime raws) =
     {b. \<exists>a \<in> set ?ds. categorizeArticle a = Some b}"
    by (simp add: processedArticles_def classified_def set_sortBy set_dropNulls image_iff)
      (metis (no_types))
  have "distinct (map link (filter (\<lambda>a. categorizeArticle a \<noteq> None) ?ds))"
    using distinct_link_dedupe [of ?ns] by (rule distinct_map_filter)
  then have dist: "distinct (map link (processedArticles e itemTime raws))"
    by (simp add: processedArticles_def classified_def distinct_link_sortBy map_link_dropNulls)
  have "length (processedArticles e itemTime raws) \<le> length ?ds"
    by (simp add: processedArticles_def classified_def length_sortBy dropNulls_def
        le_trans [OF length_filter_le])
  then have len: "length (processedArticles e itemTime raws) \<le> card (link ` set ?ns)"
    by (simp add: length_dedupe)
  have first: "\<forall>a \<in> set ?ds. find (\<lambda>b. link b = link a) ?ns = Some a"
    using dedupe_first by blast
  show ?thesis
    using dedupe_indices [of ?ns] length_dedupe [of ?ns] distinct_link_dedupe [of ?ns]
      first set_eq dist len
    by (intro conjI)
qed

theorem dedupe_first_occurrence_witness:
  "normalized exEnv exClock [exLinkA, exLinkB, exPlain] = [exArtA, exArtB, exArtPlain] \<and>
   dedupe (normalized exEnv exClock [exLinkA, exLinkB, exPlain]) = [exArtA, exArtPlain] \<and>
   processedArticles exEnv exClock [exLinkA, exLinkB, exPlain] = [exArtA] \<and>
   length (dedupe (normalized exEnv exClock [exLinkA, exLinkB, exPlain])) =
     card (link ` set (normalized exEnv exClock [exLinkA, exLinkB, exPlain])) \<and>
   distinct (map link (processedArticles exEnv exClock [exLinkA, exLinkB, exPlain]))"
proof -
  have v2: "dedupe (normalized exEnv exClock [exLinkA, exLinkB, exPlain]) = [exArtA, exArtPlain]"
    by (simp only: norm3 ded3)
  from dedupe_first_occurrence [of exEnv exClock "[exLinkA, exLinkB, exPlain]"]
  have "length (dedupe (normalized exEnv exClock [exLinkA, exLinkB, exPlain])) =
     card (link ` set (normalized exEnv exClock [exLinkA, exLinkB, exPlain]))"
    and "distinct (map link (processedArticles exEnv exClock [exLinkA, exLinkB, exPlain]))"
    by blast+
  with norm3 v2 proc3 show ?thesis by (intro conjI)
qed

text \<open>
  The processed output does not always have one entry for each distinct link: an item
  that is not AI-related is dropped after deduplication. One raw item, one link, and an
  empty output.
\<close>

theorem processedArticles_drops_irrelevant:
  "card (set (map raw_link [exPlain])) = 1 \<and> processedArticles exEnv exClock [exPlain] = []"
  by (simp add: proc1)

text \<open>
  Claim C7, as the code has it. When the dates of all classified articles are valid, the
  processed output is the classified list sorted by date, newest first, and the sort is
  stable: the articles of one date keep their order. Three articles dated one day, three
  days and two days back come out in the order one, two, three days.
\<close>

theorem processedArticles_sorted:
  assumes "\<forall>a \<in> set (classified e itemTime raws). dateValue e (pubDate a) \<noteq> None"
  shows "sorted_wrt (\<lambda>a b. timeOf e a \<ge> timeOf e b) (processedArticles e itemTime raws) \<and>
         mset (processedArticles e itemTime raws) = mset (classified e itemTime raws) \<and>
         (\<forall>t. filter (\<lambda>a. timeOf e a = t) (processedArticles e itemTime raws) =
               filter (\<lambda>a. timeOf e a = t) (classified e itemTime raws))"
proof -
  let ?pre = "classified e itemTime raws"
  have "\<forall>a \<in> set ?pre. \<forall>b \<in> set ?pre.
          comesAfter (dateCompare e) a b \<longleftrightarrow> timeOf e a < timeOf e b"
    using assms comesAfter_dateCompare by blast
  then have eq: "processedArticles e itemTime raws = sort_key (\<lambda>a. - timeOf e a) ?pre"
    unfolding processedArticles_def by (rule sortBy_sort_key)
  have "sorted (map (\<lambda>a. - timeOf e a) (sort_key (\<lambda>a. - timeOf e a) ?pre))"
    by (rule sorted_sort_key)
  then have srt: "sorted_wrt (\<lambda>a b. timeOf e a \<ge> timeOf e b) (processedArticles e itemTime raws)"
    by (simp add: eq sorted_map)
  have stable: "filter (\<lambda>a. timeOf e a = t) (processedArticles e itemTime raws) =
               filter (\<lambda>a. timeOf e a = t) ?pre" for t
    using sort_key_stable [of "\<lambda>a. - timeOf e a" "- t" ?pre] by (simp add: eq)
  show ?thesis
    using srt stable by (simp add: eq)
qed

theorem processedArticles_sorted_witness:
  "classified exEnv exClock [exLinkA, exJan1, exJan2] = [exArtA, exArtJan1, exArtJan2] \<and>
   list_all (\<lambda>a. dateValue exEnv (pubDate a) \<noteq> None)
     (classified exEnv exClock [exLinkA, exJan1, exJan2]) \<and>
   processedArticles exEnv exClock [exLinkA, exJan1, exJan2] = [exArtA, exArtJan2, exArtJan1] \<and>
   sorted_wrt (\<lambda>a b. timeOf exEnv a \<ge> timeOf exEnv b)
     (processedArticles exEnv exClock [exLinkA, exJan1, exJan2])"
proof -
  have h: "list_all (\<lambda>a. dateValue exEnv (pubDate a) \<noteq> None)
     (classified exEnv exClock [exLinkA, exJan1, exJan2])"
    by (simp add: class3' example_dates)
  then have h': "\<forall>a \<in> set (classified exEnv exClock [exLinkA, exJan1, exJan2]).
     dateValue exEnv (pubDate a) \<noteq> None"
    by (simp only: list_all_iff)
  from processedArticles_sorted [OF h']
  have "sorted_wrt (\<lambda>a b. timeOf exEnv a \<ge> timeOf exEnv b)
     (processedArticles exEnv exClock [exLinkA, exJan1, exJan2])"
    by blast
  with class3' h proc3' show ?thesis by (intro conjI)
qed



text \<open>
  An article with an invalid date is not moved behind the dated ones: every comparison
  with it yields \<^verbatim>\<open>NaN\<close>, which the sort reads as equal. Of two articles, the
  first undated and the second dated, the stable sort changes nothing: the undated one
  stays first.
\<close>

theorem processedArticles_invalid_date_first:
  "processedArticles exEnv exClock [exUndated, exLinkA] = [exArtUndated, exArtA] \<and>
   dateValue exEnv (pubDate exArtUndated) = None \<and>
   dateValue exEnv (pubDate exArtA) = Some 1704240000000"
  by (simp add: proc2 example_dates)

end
